theory Spec2Isabelle
  imports Main "HOL-Library.Multiset" "HOL-Library.Sublist"
begin

section \<open>Data model\<close>

text \<open>
  A boot-sequence entry of the controller: a dictionary with a string \<open>Name\<close> and an
  integer \<open>Index\<close>.
\<close>

record device =
  Name :: string
  Index :: int

text \<open>
  The value \<open>.json()\<close> decodes from a response body: strings, integers, the list of
  boot-sequence entries, and objects (a dictionary, kept as an association list whose first
  binding of a key is the one looked up).
\<close>

datatype json =
    JStr string
  | JNum int
  | JDevices "device list"
  | JObj "(string \<times> json) list"

text \<open>
  What a request of the \<open>requests\<close> library returns: the status code, the decoded body
  (\<open>None\<close> when \<open>.json()\<close> raises ValueError), the text \<open>str(.json())\<close> and the text
  \<open>str(.__dict__)\<close>; the last two are renderings made by Python itself.
\<close>

record response =
  status_code :: int
  json :: "json option"
  json_str :: string
  dict_str :: string

datatype exn = ValueError | KeyError | TypeError | AttributeError | IndexError | IOError
  | ArgumentTypeError

datatype request = GET string | PATCH string json | POST string json | DELETE string

datatype level = INFO | WARNING | ERROR

text \<open>The values interpolated into a log message.\<close>

datatype logarg = S string | I int | J json | SL "string list"

text \<open>
  Everything the client does that can be observed, in the order it happens: a request
  together with the response it got, a \<open>time.sleep\<close>, a line given to the logger
  (level, message template, interpolated values).
\<close>

datatype event = Http request response | Sleep nat | Log level string "logarg list"

text \<open>
  The world: the responses the controller is going to give, one per request, in order,
  and the events so far.
\<close>

record world =
  script :: "response list"
  events :: "event list"

text \<open>
  How a piece of the client ends: it returns a value, it calls \<open>sys.exit\<close>, it raises an
  exception nobody catches, or it waits for a response that never comes (\<open>Starved\<close>: the
  script is exhausted).
\<close>

datatype 'a outcome = Return 'a | Exit int | Raise exn | Starved

type_synonym 'a prog = "world \<Rightarrow> 'a outcome \<times> world"

definition ret :: "'a \<Rightarrow> 'a prog" where
  "ret v w = (Return v, w)"

definition sys_exit :: "int \<Rightarrow> 'a prog" where
  "sys_exit n w = (Exit n, w)"

definition raise :: "exn \<Rightarrow> 'a prog" where
  "raise e w = (Raise e, w)"

definition bind :: "'a prog \<Rightarrow> ('a \<Rightarrow> 'b prog) \<Rightarrow> 'b prog" where
  "bind m f w =
     (case m w of
        (Return v, w') \<Rightarrow> f v w'
      | (Exit n, w') \<Rightarrow> (Exit n, w')
      | (Raise e, w') \<Rightarrow> (Raise e, w')
      | (Starved, w') \<Rightarrow> (Starved, w'))"

definition emit :: "event \<Rightarrow> unit prog" where
  "emit e w = (Return (), w\<lparr>events := events w @ [e]\<rparr>)"

definition logger :: "level \<Rightarrow> string \<Rightarrow> logarg list \<Rightarrow> unit prog" where
  "logger l msg args = emit (Log l msg args)"

definition sleep :: "nat \<Rightarrow> unit prog" where
  "sleep n = emit (Sleep n)"

definition http :: "request \<Rightarrow> response prog" where
  "http rq w =
     (case script w of
        [] \<Rightarrow> (Starved, w)
      | r # rs \<Rightarrow> (Return r, w\<lparr>script := rs, events := events w @ [Http rq r]\<rparr>))"

definition lift :: "exn + 'a \<Rightarrow> 'a prog" where
  "lift x = (case x of Inl e \<Rightarrow> raise e | Inr v \<Rightarrow> ret v)"

definition resp_json :: "response \<Rightarrow> json prog" where
  "resp_json r = (case json r of None \<Rightarrow> raise ValueError | Some d \<Rightarrow> ret d)"

fun getitem :: "json \<Rightarrow> string \<Rightarrow> exn + json" where
  "getitem (JObj kvs) k = (case map_of kvs k of None \<Rightarrow> Inl KeyError | Some v \<Rightarrow> Inr v)"
| "getitem (JStr s) k = Inl TypeError"
| "getitem (JNum n) k = Inl TypeError"
| "getitem (JDevices ds) k = Inl TypeError"

record badfish =
  host :: string
  username :: string
  password :: string

section \<open>Strings, lists and the two regular expressions\<close>

text \<open>\<open>str.split(sep)\<close> for a separator of one character: never an empty list.\<close>

fun py_split :: "char \<Rightarrow> string \<Rightarrow> string list" where
  "py_split sep [] = [[]]"
| "py_split sep (c # cs) =
     (if c = sep then [] # py_split sep cs
      else (case py_split sep cs of [] \<Rightarrow> [[c]] | p # ps \<Rightarrow> (c # p) # ps))"

text \<open>\<open>str.strip(chars)\<close>.\<close>

definition py_strip :: "char set \<Rightarrow> string \<Rightarrow> string" where
  "py_strip cs s = rev (dropWhile (\<lambda>c. c \<in> cs) (rev (dropWhile (\<lambda>c. c \<in> cs) s)))"

text \<open>\<open>str.lower()\<close> on ASCII letters.\<close>

definition lower_char :: "char \<Rightarrow> char" where
  "lower_char c =
     (if (65::nat) \<le> of_char c \<and> of_char c \<le> (90::nat)
      then char_of (of_char c + (32::nat)) else c)"

definition lower :: "string \<Rightarrow> string" where
  "lower s = map lower_char s"

text \<open>\<open>xs[i]\<close>: a negative index counts from the end, an index out of range raises.\<close>

definition py_index :: "'a list \<Rightarrow> int \<Rightarrow> exn + 'a" where
  "py_index xs i =
     (if 0 \<le> i \<and> i < int (length xs) then Inr (xs ! nat i)
      else if i < 0 \<and> - int (length xs) \<le> i then Inr (xs ! nat (int (length xs) + i))
      else Inl IndexError)"

definition quote :: char where
  "quote = CHR 0x27"

definition newline :: char where
  "newline = CHR 0x0A"

text \<open>
  The tail \<open>.*?q\<close> of the two patterns: the text up to and including the first \<open>q\<close>,
  provided no newline comes before it (\<open>.\<close> does not match a newline).
\<close>

fun lazy_until :: "char \<Rightarrow> string \<Rightarrow> string option" where
  "lazy_until q [] = None"
| "lazy_until q (c # cs) =
     (if c = q then Some [c]
      else if c = newline then None
      else map_option ((#) c) (lazy_until q cs))"

text \<open>
  A match of \<open>JID_.+?q\<close> at the start of the text: \<open>JID_\<close>, one character that is not a
  newline, then lazily up to the first \<open>q\<close>.
\<close>

definition match_jid :: "char \<Rightarrow> string \<Rightarrow> string option" where
  "match_jid q s =
     (if take 4 s = ''JID_''
      then (case drop 4 s of
              [] \<Rightarrow> None
            | c # cs \<Rightarrow> if c = newline then None
                        else map_option (\<lambda>m. ''JID_'' @ c # m) (lazy_until q cs))
      else None)"

text \<open>\<open>re.search\<close>: the leftmost match, \<open>None\<close> when there is none.\<close>

fun re_search :: "char \<Rightarrow> string \<Rightarrow> string option" where
  "re_search q [] = None"
| "re_search q (c # cs) =
     (case match_jid q (c # cs) of Some m \<Rightarrow> Some m | None \<Rightarrow> re_search q cs)"

text \<open>
  \<open>re.findall\<close>: the matches from left to right, none overlapping; the counter is the
  number of characters of the last match still to be skipped.
\<close>

fun re_findall_from :: "char \<Rightarrow> nat \<Rightarrow> string \<Rightarrow> string list" where
  "re_findall_from q k [] = []"
| "re_findall_from q (Suc k) (c # cs) = re_findall_from q k cs"
| "re_findall_from q 0 (c # cs) =
     (case match_jid q (c # cs) of
        Some m \<Rightarrow> m # re_findall_from q (length m - 1) cs
      | None \<Rightarrow> re_findall_from q 0 cs)"

definition re_findall :: "char \<Rightarrow> string \<Rightarrow> string list" where
  "re_findall q s = re_findall_from q 0 s"

section \<open>The client\<close>

definition BOOT_SOURCES_URI :: string where
  "BOOT_SOURCES_URI = ''/redfish/v1/Systems/System.Embedded.1/BootSources/Settings''"

definition BIOS_URI :: string where
  "BIOS_URI = ''/redfish/v1/Systems/System.Embedded.1/Bios/Settings''"

text \<open>The addresses that are not given a name in the source.\<close>

definition bios_url :: "badfish \<Rightarrow> string" where
  "bios_url self = ''https://'' @ host self @ ''/redfish/v1/Systems/System.Embedded.1/Bios''"

definition boot_sources_url :: "badfish \<Rightarrow> string" where
  "boot_sources_url self =
     ''https://'' @ host self @ ''/redfish/v1/Systems/System.Embedded.1/BootSources''"

definition boot_sources_settings_url :: "badfish \<Rightarrow> string" where
  "boot_sources_settings_url self = ''https://'' @ host self @ BOOT_SOURCES_URI"

definition bios_settings_url :: "badfish \<Rightarrow> string" where
  "bios_settings_url self = ''https://'' @ host self @ BIOS_URI"

definition pxe_url :: "badfish \<Rightarrow> string" where
  "pxe_url self = ''https://'' @ host self @ ''/redfish/v1/Systems/System.Embedded.1''"

subsection \<open>Boot mode and boot devices\<close>

definition get_bios_boot_mode :: "badfish \<Rightarrow> json prog" where
  "get_bios_boot_mode self =
     bind (http (GET (bios_url self)))
       (\<lambda>r. case json r of
               None \<Rightarrow> bind (logger ERROR ''Could not retrieve Bios Boot mode.'' [])
                         (\<lambda>_. sys_exit 1)
             | Some data \<Rightarrow>
                 bind (lift (getitem data ''Attributes''))
                   (\<lambda>a. lift (getitem a ''BootMode'')))"

definition get_boot_seq :: "json \<Rightarrow> string" where
  "get_boot_seq bios_boot_mode =
     (if bios_boot_mode = JStr ''Uefi'' then ''UefiBootSeq'' else ''BootSeq'')"

definition get_boot_devices :: "badfish \<Rightarrow> string \<Rightarrow> json prog" where
  "get_boot_devices self boot_seq =
     bind (http (GET (boot_sources_url self)))
       (\<lambda>r. bind (resp_json r)
       (\<lambda>data. bind (lift (getitem data ''Attributes''))
       (\<lambda>a. lift (getitem a boot_seq))))"

subsection \<open>Changing the boot order\<close>

text \<open>
  The interfaces file: absent, not YAML (with the parser's message), or a mapping from
  keys to comma-separated interface names.
\<close>

datatype yaml_file = Missing | Malformed string | Definitions "(string \<times> string) list"

definition lookup :: "(string \<times> string) list \<Rightarrow> string \<Rightarrow> exn + string" where
  "lookup definitions k =
     (case map_of definitions k of None \<Rightarrow> Inl KeyError | Some v \<Rightarrow> Inr v)"

definition host_model :: "badfish \<Rightarrow> string" where
  "host_model self = last (py_split CHR ''-'' (hd (py_split CHR ''.'' (host self))))"

definition interfaces_key :: "string \<Rightarrow> string \<Rightarrow> string" where
  "interfaces_key host_type model = host_type @ ''_'' @ model @ ''_interfaces''"

text \<open>\<open>"%s" % x\<close> for an optional string.\<close>

definition str_opt :: "string option \<Rightarrow> string" where
  "str_opt x = (case x of None \<Rightarrow> ''None'' | Some s \<Rightarrow> s)"

text \<open>
  What \<open>for device in boot_devices\<close> followed by \<open>device["Name"]\<close> goes through: the
  entries of a list of devices; nothing for an empty string or an empty object; a
  TypeError for anything else.
\<close>

fun iter_devices :: "json \<Rightarrow> exn + device list" where
  "iter_devices (JDevices ds) = Inr ds"
| "iter_devices (JStr s) = (if s = [] then Inr [] else Inl TypeError)"
| "iter_devices (JObj kvs) = (if kvs = [] then Inr [] else Inl TypeError)"
| "iter_devices (JNum n) = Inl TypeError"

text \<open>
  The inner loop of the reconciliation, for the interface at position \<open>i\<close>: the first
  device of that name gets the index \<open>i\<close> when it has another one, and the loop breaks.
  The flag tells whether an index was written.
\<close>

fun assign_index :: "string \<Rightarrow> int \<Rightarrow> device list \<Rightarrow> device list \<times> bool" where
  "assign_index name i [] = ([], False)"
| "assign_index name i (d # ds) =
     (if name = Name d
      then (if Index d \<noteq> i then (d\<lparr>Index := i\<rparr> # ds, True) else (d # ds, False))
      else (case assign_index name i ds of (ds', c) \<Rightarrow> (d # ds', c)))"

text \<open>The outer loop: the interfaces from position \<open>i\<close> on, with the flag \<open>change\<close>.\<close>

fun reconcile :: "string list \<Rightarrow> nat \<Rightarrow> device list \<Rightarrow> bool \<Rightarrow> device list \<times> bool" where
  "reconcile [] i devs change = (devs, change)"
| "reconcile (name # names) i devs change =
     (case assign_index name (int i) devs of
        (devs', c) \<Rightarrow> reconcile names (Suc i) devs' (change \<or> c))"

definition change_boot_order ::
  "(string \<Rightarrow> yaml_file) \<Rightarrow> badfish \<Rightarrow> string \<Rightarrow> string option \<Rightarrow> unit prog" where
  "change_boot_order fs self interfaces_path host_type =
     (case fs interfaces_path of
        Missing \<Rightarrow> raise IOError
      | Malformed ex \<Rightarrow> bind (logger ERROR ex []) (\<lambda>_. sys_exit 1)
      | Definitions definitions \<Rightarrow>
          bind (lift (lookup definitions
                  (interfaces_key (str_opt host_type) (host_model self)))) (\<lambda>v.
          bind (get_bios_boot_mode self) (\<lambda>bios_boot_mode.
          bind (get_boot_devices self (get_boot_seq bios_boot_mode)) (\<lambda>boot_devices.
          bind (lift (iter_devices boot_devices)) (\<lambda>devs.
            case reconcile (py_split CHR '','' v) 0 devs False of
              (devs', change) \<Rightarrow>
                if change
                then bind (http (PATCH (boot_sources_settings_url self)
                            (JObj [(''Attributes'',
                               JObj [(get_boot_seq bios_boot_mode, JDevices devs')])])))
                       (\<lambda>response.
                          if status_code response = 200
                          then logger INFO
                                 ''- PASS: PATCH command passed to update boot order'' []
                          else logger ERROR
                                 ''- FAIL: There was something wrong with your request'' [])
                else bind (logger WARNING
                       ''- WARNING: No changes were made since the boot order already matches the requested.''
                       [])
                     (\<lambda>_. sys_exit 0))))))"

subsection \<open>One-time boot\<close>

definition set_next_boot_pxe :: "badfish \<Rightarrow> unit prog" where
  "set_next_boot_pxe self =
     bind (http (PATCH (pxe_url self)
                   (JObj [(''Boot'', JObj [(''BootSourceOverrideTarget'', JStr ''Pxe'')])])))
       (\<lambda>r. bind (sleep 5)
       (\<lambda>_. if status_code r = 200
             then logger INFO
                    (''- PASS: PATCH command passed to set next boot onetime boot device to: ''
                      @ [CHR 0x22] @ ''%s'' @ [CHR 0x22]) [S ''Pxe'']
             else bind (logger ERROR ''- FAIL: Command failed, error code is %s''
                          [I (status_code r)])
                  (\<lambda>_. bind (logger ERROR (dict_str r) [])
                  (\<lambda>_. sys_exit 1))))"

definition boot_to_device :: "badfish \<Rightarrow> string \<Rightarrow> unit prog" where
  "boot_to_device self boot_to =
     bind (http (PATCH (bios_settings_url self)
                   (JObj [(''Attributes'',
                      JObj [(''OneTimeBootMode'', JStr ''OneTimeBootSeq''),
                            (''OneTimeBootSeqDev'', JStr boot_to)])])))
       (\<lambda>r. if status_code r = 200
             then logger INFO ''- PASS: Command passed to set BIOS attribute pending values'' []
             else bind (logger ERROR ''- FAIL: command failed, error code is: %s''
                          [I (status_code r)])
                  (\<lambda>_. bind (logger ERROR (dict_str r) [])
                  (\<lambda>_. sys_exit 1)))"

subsection \<open>The job queue\<close>

definition jobs_url :: "badfish \<Rightarrow> string" where
  "jobs_url self = ''https://'' @ host self @ ''/redfish/v1/Managers/iDRAC.Embedded.1/Jobs''"

definition get_job_queue :: "badfish \<Rightarrow> string list prog" where
  "get_job_queue self =
     bind (http (GET (jobs_url self)))
       (\<lambda>r. bind (resp_json r)
       (\<lambda>data. ret (re_findall quote (json_str r))))"

text \<open>The loop of DELETE requests; no response is looked at.\<close>

fun delete_jobs :: "badfish \<Rightarrow> string list \<Rightarrow> unit prog" where
  "delete_jobs self [] = ret ()"
| "delete_jobs self (job # jobs) =
     bind (http (DELETE (jobs_url self @ ''/'' @ py_strip {quote} job)))
       (\<lambda>_. delete_jobs self jobs)"

definition clear_job_queue :: "badfish \<Rightarrow> string list \<Rightarrow> unit prog" where
  "clear_job_queue self queue =
     (if queue = []
      then logger WARNING
             (newline # ''- WARNING, job queue already cleared for iDRAC %s, DELETE command will not execute'')
             [S (host self)]
      else bind (logger WARNING
                   (newline # ''- WARNING, clearing job queue for job IDs: %s'' @ [newline])
                   [SL queue])
           (\<lambda>_. bind (delete_jobs self queue)
           (\<lambda>_. bind (get_job_queue self)
           (\<lambda>job_queue.
              if job_queue = []
              then logger INFO ''- PASS, job queue for iDRAC %s successfully cleared''
                     [S (host self)]
              else bind (logger ERROR
                     ''- FAIL, job queue not cleared, current job queue contains jobs: %s''
                     [SL job_queue])
                   (\<lambda>_. sys_exit 1)))))"

subsection \<open>Creating the job\<close>

definition create_bios_config_job :: "badfish \<Rightarrow> string \<Rightarrow> string prog" where
  "create_bios_config_job self uri =
     bind (http (POST (jobs_url self) (JObj [(''TargetSettingsURI'', JStr uri)])))
       (\<lambda>r. bind (if status_code r = 200
                   then logger INFO
                     ''- PASS: POST command passed to create target config job, status code 200 returned.''
                     []
                   else bind (logger ERROR
                          ''- FAIL: POST command failed to create BIOS config job, status code is %s''
                          [I (status_code r)])
                        (\<lambda>_. bind (logger ERROR (dict_str r) [])
                        (\<lambda>_. sys_exit 1)))
       (\<lambda>_. case re_search CHR '','' (dict_str r) of
               None \<Rightarrow> raise AttributeError
             | Some job_id_search \<Rightarrow>
                 (let job_id = filter (\<lambda>c. c \<noteq> CHR '','' \<and> c \<noteq> quote) job_id_search
                  in bind (logger INFO ''- INFO: %s job ID successfully created'' [S job_id])
                       (\<lambda>_. ret job_id))))"

subsection \<open>Job polling\<close>

definition job_url :: "badfish \<Rightarrow> string \<Rightarrow> string" where
  "job_url self job_id =
     ''https://'' @ host self @ ''/redfish/v1/Managers/iDRAC.Embedded.1/Jobs/'' @ job_id"

fun get_job_status_loop :: "badfish \<Rightarrow> string \<Rightarrow> nat \<Rightarrow> unit prog" where
  "get_job_status_loop self job_id 0 =
     bind (logger ERROR ''- FAIL: Not able to successfully schedule the job.'' [])
       (\<lambda>_. sys_exit 1)"
| "get_job_status_loop self job_id (Suc n) =
     bind (http (GET (job_url self job_id))) (\<lambda>req.
     bind (if status_code req = 200
           then bind (logger INFO
                  ''- PASS: Command passed to check job status, code 200 returned'' [])
                  (\<lambda>_. sleep 10)
           else bind (logger ERROR
                  ''- FAIL: Command failed to check job status, return code is %s''
                  [I (status_code req)])
                (\<lambda>_. bind (resp_json req) (\<lambda>d.
                 bind (logger ERROR ''    Extended Info Message: {0}'' [J d])
                (\<lambda>_. sys_exit 1)))) (\<lambda>_.
     bind (resp_json req) (\<lambda>data.
     bind (lift (getitem data ''Message'')) (\<lambda>m.
       if m = JStr ''Task successfully scheduled.''
       then logger INFO ''- PASS: job id %s successfully scheduled'' [S job_id]
       else bind (logger WARNING
                   ''- WARNING: JobStatus not scheduled, current status is: %s'' [J m])
              (\<lambda>_. get_job_status_loop self job_id n)))))"

definition get_job_status :: "badfish \<Rightarrow> string \<Rightarrow> unit prog" where
  "get_job_status self job_id = get_job_status_loop self job_id 10"

subsection \<open>Power cycle\<close>

definition system_url :: "badfish \<Rightarrow> string" where
  "system_url self = ''https://'' @ host self @ ''/redfish/v1/Systems/System.Embedded.1/''"

definition reset_url :: "badfish \<Rightarrow> string" where
  "reset_url self = ''https://'' @ host self
     @ ''/redfish/v1/Systems/System.Embedded.1/Actions/ComputerSystem.Reset''"

definition reset_payload :: "string \<Rightarrow> json" where
  "reset_payload reset_type = JObj [(''ResetType'', JStr reset_type)]"

text \<open>The read of the system resource and of its \<open>PowerState\<close>.\<close>

definition power_state :: "badfish \<Rightarrow> json prog" where
  "power_state self =
     bind (http (GET (system_url self)))
       (\<lambda>r. bind (resp_json r)
       (\<lambda>data. lift (getitem data ''PowerState'')))"

definition graceful_restart :: "badfish \<Rightarrow> unit prog" where
  "graceful_restart self =
     bind (http (POST (reset_url self) (reset_payload ''GracefulRestart'')))
       (\<lambda>r. if status_code r = 204
             then bind (logger INFO
                    ''- PASS: Command passed to gracefully restart server, code return is %s''
                    [I (status_code r)])
                  (\<lambda>_. sleep 3)
             else bind (logger ERROR
                    ''- FAIL: Command failed to gracefully restart server, status code is: %s''
                    [I (status_code r)])
                  (\<lambda>_. bind (resp_json r)
                  (\<lambda>d. bind (logger ERROR ''    Extended Info Message: {0}'' [J d])
                  (\<lambda>_. sys_exit 1))))"

text \<open>The branch \<open>count == 10\<close> of the loop (the counter is \<open>count'\<close> below).\<close>

definition force_off :: "badfish \<Rightarrow> unit prog" where
  "force_off self =
     bind (logger WARNING
       ''- WARNING: unable to graceful shutdown the server, will perform forced shutdown now'' [])
       (\<lambda>_. bind (http (POST (reset_url self) (reset_payload ''ForceOff'')))
       (\<lambda>r. if status_code r = 204
             then bind (logger INFO
                    ''- PASS: Command passed to forcefully power OFF server, code return is %s''
                    [I (status_code r)])
                  (\<lambda>_. sleep 10)
             else bind (logger ERROR
                    ''- FAIL, Command failed to gracefully power OFF server, status code is: %s''
                    [I (status_code r)])
                  (\<lambda>_. bind (resp_json r)
                  (\<lambda>d. bind (logger ERROR ''    Extended Info Message: {0}'' [J d])
                  (\<lambda>_. sys_exit 1)))))"

definition power_on :: "badfish \<Rightarrow> unit prog" where
  "power_on self =
     bind (http (POST (reset_url self) (reset_payload ''On'')))
       (\<lambda>r. if status_code r = 204
             then logger INFO ''- PASS: Command passed to power ON server, code return is %s''
                    [I (status_code r)]
             else bind (logger ERROR
                    ''- FAIL: Command failed to power ON server, status code is: %s''
                    [I (status_code r)])
                  (\<lambda>_. bind (resp_json r)
                  (\<lambda>d. bind (logger ERROR ''    Extended Info Message: {0}'' [J d])
                  (\<lambda>_. sys_exit 1))))"

text \<open>
  The loop \<open>while True\<close> makes a request in every round, so it ends when the script does;
  the three lemmas are what its termination proof needs.
\<close>

lemma bind_cong [fundef_cong]:
  "m w = m' w' \<Longrightarrow> (\<And>v w''. m' w' = (Return v, w'') \<Longrightarrow> f v w'' = f' v w'')
   \<Longrightarrow> bind m f w = bind m' f' w'"
  by (auto simp: bind_def split: prod.splits outcome.splits)

lemma power_state_consumes:
  "power_state self w = (Return ps, w1) \<Longrightarrow> length (script w1) < length (script w)"
  by (auto simp: power_state_def bind_def http_def resp_json_def lift_def ret_def raise_def
      split: list.splits option.splits sum.splits)

lemma force_off_consumes:
  "force_off self w = (Return x, w1) \<Longrightarrow> length (script w1) < length (script w)"
  by (auto simp: force_off_def bind_def http_def resp_json_def logger_def emit_def sleep_def
      sys_exit_def raise_def ret_def split: list.splits option.splits if_splits)

lemma sleep_keeps_script:
  "sleep n w = (Return x, w1) \<Longrightarrow> script w1 = script w"
  by (auto simp: sleep_def emit_def)

function wait_for_off :: "badfish \<Rightarrow> nat \<Rightarrow> unit prog" where
  "wait_for_off self count' w =
     bind (power_state self)
       (\<lambda>ps w1.
          if ps = JStr ''Off''
          then logger INFO ''- PASS: GET command passed to verify server is in OFF state'' [] w1
          else if count' = 10
          then bind (force_off self) (\<lambda>_ w2. wait_for_off self count' w2) w1
          else bind (sleep 1) (\<lambda>_ w2. wait_for_off self (count' + 1) w2) w1) w"
  by pat_completeness auto
termination
proof (relation "measure (\<lambda>(self, count', w). length (script w))")
  show "wf (measure (\<lambda>(self, count', w). length (script w)))" by simp
next
  fix self :: badfish and count' :: nat and w v w'' x w2
  assume "power_state self w = (Return v, w'')" "force_off self w'' = (Return x, w2)"
  then show "((self, count', w2), (self, count', w))
      \<in> measure (\<lambda>(self, count', w). length (script w))"
    using power_state_consumes force_off_consumes by fastforce
next
  fix self :: badfish and count' :: nat and w v w'' x w2
  assume "power_state self w = (Return v, w'')" "sleep 1 w'' = (Return x, w2)"
  then show "((self, count' + 1, w2), (self, count', w))
      \<in> measure (\<lambda>(self, count', w). length (script w))"
    using power_state_consumes sleep_keeps_script by fastforce
qed

definition reboot_server :: "badfish \<Rightarrow> unit prog" where
  "reboot_server self =
     bind (power_state self)
       (\<lambda>ps. bind (logger WARNING ''- WARNING: Current server power state is: %s'' [J ps])
       (\<lambda>_. if ps = JStr ''On''
             then bind (graceful_restart self)
                    (\<lambda>_. bind (wait_for_off self 0)
                    (\<lambda>_. power_on self))
             else if ps = JStr ''Off''
             then power_on self
             else bind (logger ERROR
                    ''- FAIL: unable to get current server power state to perform either reboot or power on''
                    [])
                  (\<lambda>_. sys_exit 1)))"

subsection \<open>Checking the boot order\<close>

text \<open>
  \<open>boot_devices[:k]\<close> given to \<open>sorted\<close> with the key \<open>x["Index"]\<close>: the first \<open>k\<close>
  entries of a list of devices, nothing for an empty string, a TypeError otherwise.
\<close>

fun slice_devices :: "json \<Rightarrow> nat \<Rightarrow> exn + device list" where
  "slice_devices (JDevices ds) k = Inr (take k ds)"
| "slice_devices (JStr s) k = (if take k s = [] then Inr [] else Inl TypeError)"
| "slice_devices (JObj kvs) k = Inl TypeError"
| "slice_devices (JNum n) k = Inl TypeError"

text \<open>
  The comparison loop of one profile: each device's name against the candidate entry at
  the device's index.
\<close>

fun profile_matches :: "string list \<Rightarrow> device list \<Rightarrow> exn + bool" where
  "profile_matches cand [] = Inr True"
| "profile_matches cand (d # ds) =
     (case py_index cand (Index d) of
        Inl e \<Rightarrow> Inl e
      | Inr name \<Rightarrow> if Name d = name then profile_matches cand ds else Inr False)"

text \<open>
  The loop over the profiles; \<open>n\<close> is the number of entries the dictionary \<open>interfaces\<close>
  has before the round, so \<open>len(interfaces)\<close> is \<open>Suc n\<close> in the round. The result is the
  profile reported, if any.
\<close>

fun check_profiles ::
  "(string \<times> string) list \<Rightarrow> string \<Rightarrow> json \<Rightarrow> string list \<Rightarrow> nat \<Rightarrow> string option prog"
where
  "check_profiles definitions model boot_devices [] n = ret None"
| "check_profiles definitions model boot_devices (h # hs) n =
     bind (lift (lookup definitions (interfaces_key h model))) (\<lambda>v.
     bind (lift (slice_devices boot_devices (Suc n))) (\<lambda>ds.
     bind (lift (profile_matches (py_split CHR '','' v) (sort_key Index ds))) (\<lambda>match.
       if match
       then bind (logger INFO (''Current boot order is set to '' @ [quote] @ ''%s'' @ [quote])
                    [S h])
              (\<lambda>_. ret (Some h))
       else check_profiles definitions model boot_devices hs (Suc n))))"

fun log_devices :: "device list \<Rightarrow> unit prog" where
  "log_devices [] = ret ()"
| "log_devices (d # ds) =
     bind (logger INFO ''%s: %s'' [I (Index d + 1), S (Name d)]) (\<lambda>_. log_devices ds)"

definition list_boot_order :: "json \<Rightarrow> unit prog" where
  "list_boot_order boot_devices =
     bind (logger INFO ''Current boot order:'' [])
       (\<lambda>_. bind (lift (iter_devices boot_devices))
       (\<lambda>ds. log_devices (sort_key Index ds)))"

text \<open>\<open>if x:\<close> for an optional string: neither \<open>None\<close> nor empty.\<close>

definition truthy :: "string option \<Rightarrow> bool" where
  "truthy x = (case x of None \<Rightarrow> False | Some s \<Rightarrow> s \<noteq> [])"

text \<open>The value returned is \<open>1\<close> after a YAML error and \<open>None\<close> otherwise.\<close>

definition check_boot ::
  "(string \<Rightarrow> yaml_file) \<Rightarrow> badfish \<Rightarrow> string option \<Rightarrow> int option prog" where
  "check_boot fs self interfaces_path =
     bind (get_bios_boot_mode self) (\<lambda>bios_boot_mode.
     bind (get_boot_devices self (get_boot_seq bios_boot_mode)) (\<lambda>boot_devices.
       if truthy interfaces_path
       then (case fs (str_opt interfaces_path) of
               Missing \<Rightarrow> raise IOError
             | Malformed ex \<Rightarrow> bind (logger ERROR ex []) (\<lambda>_. ret (Some 1))
             | Definitions definitions \<Rightarrow>
                 bind (check_profiles definitions (host_model self) boot_devices
                         [''foreman'', ''director''] 0)
                   (\<lambda>found. case found of
                      Some h \<Rightarrow> ret None
                    | None \<Rightarrow>
                        bind (logger WARNING
                          ''- WARN: Current boot order does not match any of the given.'' [])
                          (\<lambda>_. bind (list_boot_order boot_devices) (\<lambda>_. ret None))))
       else bind (list_boot_order boot_devices) (\<lambda>_. ret None)))"

subsection \<open>The command line\<close>

text \<open>
  The parsed arguments. The set-up of the logger and of its file handler is not part of
  the model.
\<close>

record args =
  arg_H :: string
  arg_u :: string
  arg_p :: string
  arg_i :: "string option"
  arg_t :: "string option"
  arg_pxe :: bool
  arg_boot_to :: "string option"
  arg_reboot_only :: bool
  arg_check_boot :: bool

text \<open>The tail shared by the two configuring branches of \<open>main\<close>.\<close>

definition schedule_and_reboot :: "badfish \<Rightarrow> int prog" where
  "schedule_and_reboot self =
     bind (get_job_queue self) (\<lambda>jobs_queue.
     bind (if jobs_queue \<noteq> [] then clear_job_queue self jobs_queue else ret ()) (\<lambda>_.
     bind (create_bios_config_job self BIOS_URI) (\<lambda>job_id.
     bind (get_job_status self job_id) (\<lambda>_.
     bind (reboot_server self) (\<lambda>_. ret 0)))))"

definition main :: "(string \<Rightarrow> yaml_file) \<Rightarrow> args \<Rightarrow> int prog" where
  "main fs a =
     (let badfish = \<lparr>host = arg_H a, username = arg_u a, password = arg_p a\<rparr> in
      if arg_reboot_only a
      then bind (reboot_server badfish) (\<lambda>_. ret 0)
      else if truthy (arg_boot_to a)
      then bind (boot_to_device badfish (str_opt (arg_boot_to a)))
             (\<lambda>_. schedule_and_reboot badfish)
      else if arg_check_boot a
      then bind (check_boot fs badfish (arg_i a)) (\<lambda>_. ret 0)
      else bind (if truthy (arg_t a)
                    \<and> lower (str_opt (arg_t a)) \<notin> {''foreman'', ''director''}
                 then raise ArgumentTypeError else ret ())
           (\<lambda>_. if truthy (arg_i a)
                 then (if fs (str_opt (arg_i a)) = Missing
                       then bind (logger ERROR ''- FAIL: No such file or directory: %s''
                                    [S (str_opt (arg_i a))])
                              (\<lambda>_. ret 1)
                       else bind (change_boot_order fs badfish (str_opt (arg_i a)) (arg_t a))
                            (\<lambda>_. bind (if arg_pxe a then set_next_boot_pxe badfish else ret ())
                            (\<lambda>_. schedule_and_reboot badfish)))
                 else bind (logger ERROR
                        (''- FAIL: You must provide a path to the interfaces yaml via ''
                          @ [CHR 0x60] @ ''-i'' @ [CHR 0x60] @ '' optional argument.'') [])
                      (\<lambda>_. ret 1)))"

text \<open>\<open>sys.exit(main())\<close>.\<close>

definition run :: "(string \<Rightarrow> yaml_file) \<Rightarrow> args \<Rightarrow> unit prog" where
  "run fs a = bind (main fs a) sys_exit"

section \<open>Observations\<close>

text \<open>What the properties below are stated with.\<close>

fun is_http :: "event \<Rightarrow> bool" where
  "is_http (Http rq r) = True"
| "is_http e = False"

text \<open>The number of requests among the events.\<close>

definition reads :: "event list \<Rightarrow> nat" where
  "reads evs = length (filter is_http evs)"

text \<open>The durations of the delays among the events, in order.\<close>

fun sleeps :: "event list \<Rightarrow> nat list" where
  "sleeps [] = []"
| "sleeps (Sleep n # es) = n # sleeps es"
| "sleeps (e # es) = sleeps es"

text \<open>The number of requests answered with status 200.\<close>

fun ok_reads :: "event list \<Rightarrow> nat" where
  "ok_reads [] = 0"
| "ok_reads (Http rq r # es) = (if status_code r = 200 then Suc (ok_reads es) else ok_reads es)"
| "ok_reads (e # es) = ok_reads es"

text \<open>
  Every request answered with status 200 is followed at once by one line of the logger at
  level INFO and a delay of 10 units.
\<close>

fun delay_follows :: "event list \<Rightarrow> bool" where
  "delay_follows [] = True"
| "delay_follows (Http rq r # es) =
     (if status_code r = 200
      then (case es of
              Log l m a # Sleep n # es' \<Rightarrow> l = INFO \<and> n = 10 \<and> delay_follows es'
            | _ \<Rightarrow> False)
      else delay_follows es)"
| "delay_follows (e # es) = delay_follows es"

text \<open>The status message of a job-status response, when its body is JSON and has one.\<close>

definition message :: "response \<Rightarrow> json option" where
  "message r =
     (case json r of
        None \<Rightarrow> None
      | Some d \<Rightarrow> (case getitem d ''Message'' of Inl e \<Rightarrow> None | Inr m \<Rightarrow> Some m))"

definition scheduled :: "response \<Rightarrow> bool" where
  "scheduled r = (message r = Some (JStr ''Task successfully scheduled.''))"

text \<open>
  The position, counted from 1, of the first response that reports the job scheduled;
  one more than the length when there is none.
\<close>

definition first_scheduled :: "response list \<Rightarrow> nat" where
  "first_scheduled rs = Suc (length (takeWhile (\<lambda>r. \<not> scheduled r) rs))"

text \<open>A client for the examples.\<close>

definition idrac :: badfish where
  "idrac = \<lparr>host = ''mgmt-f21-h17-000-r620.example.com'', username = ''root'',
     password = ''calvin''\<rparr>"

text \<open>Two job-status responses.\<close>

definition pending :: response where
  "pending = \<lparr>status_code = 200, json = Some (JObj [(''Message'', JStr ''Pending'')]),
     json_str = [], dict_str = []\<rparr>"

definition finished :: response where
  "finished = \<lparr>status_code = 200,
     json = Some (JObj [(''Message'', JStr ''Task successfully scheduled.'')]),
     json_str = [], dict_str = []\<rparr>"

text \<open>The DELETE requests for the jobs of a queue, with the responses they get.\<close>

definition delete_events :: "badfish \<Rightarrow> string list \<Rightarrow> response list \<Rightarrow> event list" where
  "delete_events self queue ds =
     map2 (\<lambda>job d. Http (DELETE (jobs_url self @ ''/'' @ py_strip {quote} job)) d) queue ds"


text \<open>Two more responses: a refusal, and a job queue with nothing in it.\<close>

definition refused :: response where
  "refused = \<lparr>status_code = 500, json = None, json_str = [], dict_str = []\<rparr>"

definition empty_queue :: response where
  "empty_queue = \<lparr>status_code = 200, json = Some (JObj []), json_str = ''{}'',
     dict_str = []\<rparr>"

text \<open>
  The position in the list of the first device of a name; the length of the list when
  no device bears the name.
\<close>

definition first_named :: "string \<Rightarrow> device list \<Rightarrow> nat" where
  "first_named name devs = length (takeWhile (\<lambda>d. Name d \<noteq> name) devs)"

text \<open>The last position of a name in a list of names that holds it.\<close>

fun last_pos :: "string list \<Rightarrow> string \<Rightarrow> nat" where
  "last_pos [] x = 0"
| "last_pos (y # ys) x = (if x \<in> set ys then Suc (last_pos ys x) else 0)"

text \<open>
  Some interface, at position \<open>i\<close> of the list, names a device whose first bearer has an
  index other than \<open>k + i\<close>.
\<close>

definition misplaced :: "string list \<Rightarrow> nat \<Rightarrow> device list \<Rightarrow> bool" where
  "misplaced names k devs =
     (\<exists>i<length names. first_named (names ! i) devs < length devs
         \<and> Index (devs ! first_named (names ! i) devs) \<noteq> int (k + i))"

text \<open>The entry of a key under \<open>Attributes\<close> in a response, when the body is JSON and has it.\<close>

definition attribute :: "response \<Rightarrow> string \<Rightarrow> json option" where
  "attribute r k =
     (case json r of
        None \<Rightarrow> None
      | Some d \<Rightarrow>
          (case getitem d ''Attributes'' of
             Inl e \<Rightarrow> None
           | Inr a \<Rightarrow> (case getitem a k of Inl e \<Rightarrow> None | Inr v \<Rightarrow> Some v)))"

text \<open>The device list the reconciliation ends with, and its flag \<open>change\<close>.\<close>

definition patch_devices :: "string list \<Rightarrow> device list \<Rightarrow> device list" where
  "patch_devices desired devs = fst (reconcile desired 0 devs False)"

definition patch_needed :: "string list \<Rightarrow> device list \<Rightarrow> bool" where
  "patch_needed desired devs = snd (reconcile desired 0 devs False)"

text \<open>The payload of the PATCH of \<open>change_boot_order\<close>.\<close>

definition boot_order_payload :: "string \<Rightarrow> device list \<Rightarrow> json" where
  "boot_order_payload boot_seq devs = JObj [(''Attributes'', JObj [(boot_seq, JDevices devs)])]"

text \<open>Devices, an interfaces file and responses for the examples.\<close>

definition hdd :: string where
  "hdd = ''HardDisk.List.1-1''"

definition nic1 :: string where
  "nic1 = ''NIC.Integrated.1-1-1''"

definition nic2 :: string where
  "nic2 = ''NIC.Slot.2-1-1''"

definition interfaces_yml :: "string \<Rightarrow> yaml_file" where
  "interfaces_yml path =
     (if path = ''idrac_interfaces.yml''
      then Definitions
        [(''foreman_r620_interfaces'', nic2 @ '','' @ nic1),
         (''director_r620_interfaces'', nic1 @ '','' @ nic2)]
      else Missing)"

definition bios_response :: response where
  "bios_response = \<lparr>status_code = 200,
     json = Some (JObj [(''Attributes'', JObj [(''BootMode'', JStr ''Bios'')])]),
     json_str = [], dict_str = []\<rparr>"

definition boot_sources_response :: "device list \<Rightarrow> response" where
  "boot_sources_response devs = \<lparr>status_code = 200,
     json = Some (JObj [(''Attributes'', JObj [(''BootSeq'', JDevices devs)])]),
     json_str = [], dict_str = []\<rparr>"

definition accepted :: response where
  "accepted = \<lparr>status_code = 200, json = Some (JObj []), json_str = ''{}'', dict_str = []\<rparr>"

definition in_order :: "device list" where
  "in_order = [\<lparr>Name = nic1, Index = 0\<rparr>, \<lparr>Name = nic2, Index = 1\<rparr>, \<lparr>Name = hdd, Index = 2\<rparr>]"

definition disk_first :: "device list" where
  "disk_first = [\<lparr>Name = hdd, Index = 0\<rparr>, \<lparr>Name = nic1, Index = 1\<rparr>, \<lparr>Name = nic2, Index = 2\<rparr>]"

definition director_order :: "device list" where
  "director_order = [\<lparr>Name = hdd, Index = 2\<rparr>, \<lparr>Name = nic2, Index = 1\<rparr>, \<lparr>Name = nic1, Index = 0\<rparr>]"

text \<open>Two devices of one name, and a device whose index is not its position.\<close>

definition twins :: "device list" where
  "twins = [\<lparr>Name = nic1, Index = 0\<rparr>, \<lparr>Name = nic1, Index = 1\<rparr>]"

definition far :: "device list" where
  "far = [\<lparr>Name = nic1, Index = 5\<rparr>]"

text \<open>A disk at the head of the list, then two devices of one name.\<close>

definition shadowed :: "device list" where
  "shadowed = [\<lparr>Name = hdd, Index = 3\<rparr>, \<lparr>Name = nic2, Index = 5\<rparr>, \<lparr>Name = nic2, Index = 6\<rparr>]"

text \<open>
  The power state a read of the system resource reports, when its body is JSON and has
  one; \<open>still_on\<close>: it reports one, and not \<open>Off\<close>.
\<close>

definition power :: "response \<Rightarrow> json option" where
  "power r =
     (case json r of
        None \<Rightarrow> None
      | Some d \<Rightarrow> (case getitem d ''PowerState'' of Inl e \<Rightarrow> None | Inr v \<Rightarrow> Some v))"

definition still_on :: "response \<Rightarrow> bool" where
  "still_on r = (case power r of None \<Rightarrow> False | Some ps \<Rightarrow> ps \<noteq> JStr ''Off'')"

text \<open>The reset actions of a kind among the events, and their number.\<close>

definition is_reset :: "badfish \<Rightarrow> string \<Rightarrow> event \<Rightarrow> bool" where
  "is_reset self reset_type e =
     (case e of
        Http rq r \<Rightarrow> rq = POST (reset_url self) (reset_payload reset_type)
      | Sleep n \<Rightarrow> False
      | Log l m a \<Rightarrow> False)"

definition resets :: "badfish \<Rightarrow> string \<Rightarrow> event list \<Rightarrow> nat" where
  "resets self reset_type evs = length (filter (is_reset self reset_type) evs)"

text \<open>Two lists taken in turn: a poll, then the response to the forced power-off it sets off.\<close>

fun interleave :: "'a list \<Rightarrow> 'a list \<Rightarrow> 'a list" where
  "interleave (a # as) (b # bs) = a # b # interleave as bs"
| "interleave as bs = []"

text \<open>The events of one round of the loop that escalates.\<close>

definition force_off_events :: "badfish \<Rightarrow> response \<Rightarrow> response \<Rightarrow> event list" where
  "force_off_events self r f =
     [Http (GET (system_url self)) r,
      Log WARNING
        ''- WARNING: unable to graceful shutdown the server, will perform forced shutdown now'' [],
      Http (POST (reset_url self) (reset_payload ''ForceOff'')) f,
      Log INFO ''- PASS: Command passed to forcefully power OFF server, code return is %s''
        [I (status_code f)],
      Sleep 10]"

text \<open>A read of the system resource, and a response with status 204 and no body.\<close>

definition reading :: "string \<Rightarrow> response" where
  "reading state = \<lparr>status_code = 200, json = Some (JObj [(''PowerState'', JStr state)]),
     json_str = [], dict_str = []\<rparr>"

definition no_content :: response where
  "no_content = \<lparr>status_code = 204, json = None, json_str = [], dict_str = []\<rparr>"

text \<open>Two device lists for the check of the boot order.\<close>

definition slot_disk :: "device list" where
  "slot_disk = [\<lparr>Name = nic2, Index = 0\<rparr>, \<lparr>Name = hdd, Index = 1\<rparr>, \<lparr>Name = nic1, Index = 2\<rparr>]"

definition foreman_unsorted :: "device list" where
  "foreman_unsorted = [\<lparr>Name = hdd, Index = 2\<rparr>, \<lparr>Name = nic2, Index = 0\<rparr>, \<lparr>Name = nic1, Index = 1\<rparr>]"

text \<open>A line of the logger at level ERROR; a job-creation response that names no job.\<close>

definition is_error_log :: "event \<Rightarrow> bool" where
  "is_error_log e = (case e of Log l m a \<Rightarrow> l = ERROR | Http rq r \<Rightarrow> False | Sleep n \<Rightarrow> False)"

definition created_without_id :: response where
  "created_without_id = \<lparr>status_code = 200, json = Some (JObj []), json_str = ''{}'',
     dict_str = ''{status_code: 200, headers: {Content-Length: 0}, reason: OK}''\<rparr>"


text \<open>
  The exchanges whose status the client tests. A job-status read is tested against 200, as
  are the PATCH of the one-time PXE boot and of the one-time boot device and the POST that
  creates the configuration job; a reset action is tested against 204. The addresses of the
  job-status reads are those below the job collection.
\<close>

definition is_job_url :: "badfish \<Rightarrow> string \<Rightarrow> bool" where
  "is_job_url self url = prefix (jobs_url self @ ''/'') url"

definition rejected :: "badfish \<Rightarrow> request \<Rightarrow> response \<Rightarrow> bool" where
  "rejected self rq r =
     (case rq of
        GET url \<Rightarrow> is_job_url self url \<and> status_code r \<noteq> 200
      | PATCH url payload \<Rightarrow>
          (url = pxe_url self \<or> url = bios_settings_url self) \<and> status_code r \<noteq> 200
      | POST url payload \<Rightarrow>
          (url = jobs_url self \<and> status_code r \<noteq> 200)
          \<or> (url = reset_url self \<and> status_code r \<noteq> 204)
      | DELETE url \<Rightarrow> False)"

text \<open>A read whose body is not JSON: \<open>.json()\<close> is called on the response of every GET.\<close>

definition unparsable :: "request \<Rightarrow> response \<Rightarrow> bool" where
  "unparsable rq r =
     (case rq of
        GET url \<Rightarrow> json r = None
      | PATCH url payload \<Rightarrow> False
      | POST url payload \<Rightarrow> False
      | DELETE url \<Rightarrow> False)"

definition fatal :: "badfish \<Rightarrow> request \<Rightarrow> response \<Rightarrow> bool" where
  "fatal self rq r = (rejected self rq r \<or> unparsable rq r)"

text \<open>No request among the events; the status code of a response given to the logger at
  level ERROR.\<close>

definition http_free :: "event list \<Rightarrow> bool" where
  "http_free evs = (filter is_http evs = [])"

definition reports :: "response \<Rightarrow> event list \<Rightarrow> bool" where
  "reports r evs =
     list_ex (\<lambda>e. case e of
                 Log l m a \<Rightarrow> l = ERROR \<and> a = [I (status_code r)]
               | Http rq r' \<Rightarrow> False
               | Sleep n \<Rightarrow> False) evs"

text \<open>
  A sequence of events is \<open>safe\<close> when none of its exchanges is fatal. It is \<open>ended\<close> when its
  first fatal exchange is its last request and, when the status was refused, the status code
  is logged at level ERROR afterwards.
\<close>

fun safe :: "badfish \<Rightarrow> event list \<Rightarrow> bool" where
  "safe self [] = True"
| "safe self (Http rq r # es) = (\<not> fatal self rq r \<and> safe self es)"
| "safe self (Sleep n # es) = safe self es"
| "safe self (Log l m a # es) = safe self es"

fun ended :: "badfish \<Rightarrow> event list \<Rightarrow> bool" where
  "ended self [] = False"
| "ended self (Http rq r # es) =
     (if fatal self rq r
      then http_free es \<and> (if rejected self rq r then reports r es else True)
      else ended self es)"
| "ended self (Sleep n # es) = ended self es"
| "ended self (Log l m a # es) = ended self es"

text \<open>
  What a step of the program owes: it only adds events, and the events it adds are safe,
  or they are ended and the outcome is the exit code 1 or a ValueError.
\<close>

definition verdict :: "badfish \<Rightarrow> 'a outcome \<Rightarrow> event list \<Rightarrow> bool" where
  "verdict self out evs =
     (case out of
        Return v \<Rightarrow> safe self evs
      | Exit n \<Rightarrow> safe self evs \<or> (ended self evs \<and> n = 1)
      | Raise e \<Rightarrow> safe self evs \<or> (ended self evs \<and> e = ValueError)
      | Starved \<Rightarrow> safe self evs)"

definition heeds :: "badfish \<Rightarrow> 'a prog \<Rightarrow> bool" where
  "heeds self m =
     (\<forall>w. \<exists>evs. events (snd (m w)) = events w @ evs \<and> verdict self (fst (m w)) evs)"

definition heeds_at :: "badfish \<Rightarrow> 'a prog \<Rightarrow> world \<Rightarrow> bool" where
  "heeds_at self m w =
     (\<exists>evs. events (snd (m w)) = events w @ evs \<and> verdict self (fst (m w)) evs)"

text \<open>What the continuation of a fatal exchange owes.\<close>

definition closes :: "badfish \<Rightarrow> request \<Rightarrow> response \<Rightarrow> 'a prog \<Rightarrow> bool" where
  "closes self rq r m =
     (\<forall>w. \<exists>logs. events (snd (m w)) = events w @ logs \<and> http_free logs
        \<and> (fst (m w) = Exit 1 \<or> fst (m w) = Raise ValueError)
        \<and> (rejected self rq r \<longrightarrow> reports r logs))"

text \<open>The client that \<open>main\<close> builds from the arguments.\<close>

definition client :: "args \<Rightarrow> badfish" where
  "client a = \<lparr>host = arg_H a, username = arg_u a, password = arg_p a\<rparr>"

text \<open>
  The arguments \<open>-H ... -u root -p calvin --boot-to NIC.Integrated.1-1-1\<close>, a file system
  with no file, and four more responses: a job queue of one job, the creation of a job, a
  read answered 503 with an empty JSON object, and a list of responses with two refusals
  in it.
\<close>

definition boot_to_args :: args where
  "boot_to_args = \<lparr>arg_H = host idrac, arg_u = username idrac, arg_p = password idrac,
     arg_i = None, arg_t = None, arg_pxe = False, arg_boot_to = Some nic1,
     arg_reboot_only = False, arg_check_boot = False\<rparr>"

definition no_files :: "string \<Rightarrow> yaml_file" where
  "no_files path = Missing"

definition one_job :: response where
  "one_job = \<lparr>status_code = 200, json = Some (JObj []),
     json_str = ''{Members: [JID_471269252011'' @ [quote] @ '']}'', dict_str = []\<rparr>"

definition created :: response where
  "created = \<lparr>status_code = 200, json = Some (JObj []), json_str = ''{}'',
     dict_str = ''{Location: /redfish/v1/TaskService/Tasks/JID_471269252012'' @ [quote]
        @ '', status_code: 200}''\<rparr>"

definition unavailable :: response where
  "unavailable = \<lparr>status_code = 503, json = Some (JObj []), json_str = ''{}'', dict_str = []\<rparr>"

definition unheeded :: "response list" where
  "unheeded = [accepted, one_job, refused, unavailable, created, finished, reading ''Off'',
     no_content]"

section \<open>Properties of job polling\<close>

lemmas prog_defs = bind_def logger_def emit_def sys_exit_def http_def sleep_def resp_json_def
  lift_def ret_def raise_def

lemma get_job_status_loop_200:
  assumes "script w = r # rs" "status_code r = 200" "message r = Some m"
  shows "get_job_status_loop self jid (Suc b) w =
     (if m = JStr ''Task successfully scheduled.''
      then (Return (), w\<lparr>script := rs, events := events w @
             [Http (GET (job_url self jid)) r,
              Log INFO ''- PASS: Command passed to check job status, code 200 returned'' [],
              Sleep 10,
              Log INFO ''- PASS: job id %s successfully scheduled'' [S jid]]\<rparr>)
      else get_job_status_loop self jid b (w\<lparr>script := rs, events := events w @
             [Http (GET (job_url self jid)) r,
              Log INFO ''- PASS: Command passed to check job status, code 200 returned'' [],
              Sleep 10,
              Log WARNING ''- WARNING: JobStatus not scheduled, current status is: %s'' [J m]]\<rparr>))"
  using assms
  by (simp add: prog_defs message_def split: option.splits sum.splits)

lemma get_job_status_loop_reads:
  "script w = rs @ rest \<Longrightarrow>
   \<forall>r\<in>set rs. status_code r = 200 \<and> message r \<noteq> None \<Longrightarrow>
   b \<le> length rs \<or> (\<exists>r\<in>set rs. scheduled r) \<Longrightarrow>
   (case get_job_status_loop self jid b w of (out, w') \<Rightarrow>
      out = (if first_scheduled rs \<le> b then Return () else Exit 1) \<and>
      reads (events w') = reads (events w) + min (first_scheduled rs) b \<and>
      script w' = drop (min (first_scheduled rs) b) rs @ rest)"
proof (induction b arbitrary: w rs)
  case 0
  then show ?case by (simp add: prog_defs reads_def first_scheduled_def)
next
  case (Suc b)
  from Suc.prems(3) obtain r rs' where rs: "rs = r # rs'" by (cases rs) auto
  with Suc.prems obtain m where r: "status_code r = 200" "message r = Some m" by auto
  have sw: "script w = r # (rs' @ rest)" using Suc.prems(1) rs by simp
  note step = get_job_status_loop_200[OF sw r, of self jid b]
  show ?case
  proof (cases "scheduled r")
    case True
    then have "m = JStr ''Task successfully scheduled.''" using r by (simp add: scheduled_def)
    with step True rs show ?thesis by (simp add: reads_def first_scheduled_def)
  next
    case False
    then have m: "m \<noteq> JStr ''Task successfully scheduled.''" using r by (simp add: scheduled_def)
    let ?w = "w\<lparr>script := rs' @ rest, events := events w @
           [Http (GET (job_url self jid)) r,
            Log INFO ''- PASS: Command passed to check job status, code 200 returned'' [],
            Sleep 10,
            Log WARNING ''- WARNING: JobStatus not scheduled, current status is: %s'' [J m]]\<rparr>"
    have p1: "script ?w = rs' @ rest" by simp
    have p2: "\<forall>r\<in>set rs'. status_code r = 200 \<and> message r \<noteq> None"
      using Suc.prems(2) rs by simp
    have p3: "b \<le> length rs' \<or> (\<exists>r\<in>set rs'. scheduled r)"
      using Suc.prems(3) rs False by auto
    from Suc.IH[OF p1 p2 p3] step m False rs show ?thesis
      by (simp add: reads_def first_scheduled_def split: prod.splits)
  qed
qed

text \<open>
  Claim C6. When every job-status response has status 200 and a status message,
  \<open>get_job_status\<close> makes exactly \<open>min k 10\<close> reads, \<open>k\<close> being the position of the first
  response whose message is "Task successfully scheduled.": it returns after \<open>k\<close> reads
  when \<open>k \<le> 10\<close>, and exits with code 1 after 10 reads when none of the first 10 messages
  is that one.
\<close>

theorem get_job_status_reads:
  assumes "script w = rs @ rest"
    and "\<forall>r\<in>set rs. status_code r = 200 \<and> message r \<noteq> None"
    and "10 \<le> length rs \<or> (\<exists>r\<in>set rs. scheduled r)"
  shows "fst (get_job_status self job_id w)
           = (if first_scheduled rs \<le> 10 then Return () else Exit 1)
       \<and> reads (events (snd (get_job_status self job_id w)))
           = reads (events w) + min (first_scheduled rs) 10
       \<and> script (snd (get_job_status self job_id w))
           = drop (min (first_scheduled rs) 10) rs @ rest"
  using get_job_status_loop_reads[OF assms, of self job_id] unfolding get_job_status_def
  by (simp split: prod.splits)

theorem get_job_status_reads_witness:
  "fst (get_job_status idrac ''JID_1'' \<lparr>script = [pending, pending, finished], events = []\<rparr>) = Return ()
   \<and> reads (events (snd (get_job_status idrac ''JID_1''
        \<lparr>script = [pending, pending, finished], events = []\<rparr>))) = 3"
  using get_job_status_reads[of "\<lparr>script = [pending, pending, finished], events = []\<rparr>"
      "[pending, pending, finished]" "[]" idrac "''JID_1''"]
  by (simp add: first_scheduled_def scheduled_def message_def pending_def finished_def reads_def)

lemma get_job_status_loop_delays:
  "\<exists>evs. events (snd (get_job_status_loop self jid b w)) = events w @ evs
       \<and> sleeps evs = replicate (ok_reads evs) 10 \<and> delay_follows evs"
proof (induction b arbitrary: w)
  case 0
  show ?case by (simp add: prog_defs)
next
  case (Suc b)
  show ?case
  proof (cases "script w")
    case Nil
    then show ?thesis by (simp add: prog_defs)
  next
    case (Cons r rs)
    show ?thesis
    proof (cases "status_code r = 200 \<and> message r \<noteq> None \<and> \<not> scheduled r")
      case True
      then obtain m where r: "status_code r = 200" "message r = Some m" 
         "m \<noteq> JStr ''Task successfully scheduled.''" by (auto simp: scheduled_def)
      note step = get_job_status_loop_200[OF Cons r(1,2), of self jid b]
      let ?w = "w\<lparr>script := rs, events := events w @
           [Http (GET (job_url self jid)) r,
            Log INFO ''- PASS: Command passed to check job status, code 200 returned'' [],
            Sleep 10,
            Log WARNING ''- WARNING: JobStatus not scheduled, current status is: %s'' [J m]]\<rparr>"
      from Suc.IH[of ?w] obtain evs where
        "events (snd (get_job_status_loop self jid b ?w)) = events ?w @ evs"
        "sleeps evs = replicate (ok_reads evs) 10" "delay_follows evs" by blast
      with step r show ?thesis by simp
    next
      case False
      with Cons show ?thesis
        by (auto simp: prog_defs message_def scheduled_def split: option.splits sum.splits)
    qed
  qed
qed

text \<open>
  Claim C9. Whatever the controller answers, the delays of \<open>get_job_status\<close> are all of 10
  units and as many as the reads answered with status 200, each coming right after the
  read and its PASS line, before anything that depends on the message; and a first
  response with status 200 and the message "Task successfully scheduled." gives exactly
  one read, one delay of 10 units and a successful return.
\<close>

theorem get_job_status_delays:
  "(\<exists>evs. events (snd (get_job_status self job_id w)) = events w @ evs
        \<and> sleeps evs = replicate (ok_reads evs) 10 \<and> delay_follows evs)
   \<and> (\<forall>r rs. script w = r # rs \<and> status_code r = 200 \<and> scheduled r \<longrightarrow>
         get_job_status self job_id w =
           (Return (), w\<lparr>script := rs, events := events w @
              [Http (GET (job_url self job_id)) r,
               Log INFO ''- PASS: Command passed to check job status, code 200 returned'' [],
               Sleep 10,
               Log INFO ''- PASS: job id %s successfully scheduled'' [S job_id]]\<rparr>))"
proof (intro conjI allI impI)
  show "\<exists>evs. events (snd (get_job_status self job_id w)) = events w @ evs
        \<and> sleeps evs = replicate (ok_reads evs) 10 \<and> delay_follows evs"
    unfolding get_job_status_def by (rule get_job_status_loop_delays)
next
  fix r rs
  assume a: "script w = r # rs \<and> status_code r = 200 \<and> scheduled r"
  then have m: "message r = Some (JStr ''Task successfully scheduled.'')"
    by (simp add: scheduled_def)
  from a m get_job_status_loop_200[of w r rs "JStr ''Task successfully scheduled.''"
      self job_id 9]
  show "get_job_status self job_id w =
           (Return (), w\<lparr>script := rs, events := events w @
              [Http (GET (job_url self job_id)) r,
               Log INFO ''- PASS: Command passed to check job status, code 200 returned'' [],
               Sleep 10,
               Log INFO ''- PASS: job id %s successfully scheduled'' [S job_id]]\<rparr>)"
    unfolding get_job_status_def by simp
qed

theorem get_job_status_delays_witness:
  "get_job_status idrac ''JID_1'' \<lparr>script = [finished], events = []\<rparr> =
     (Return (), \<lparr>script = [], events =
        [Http (GET (job_url idrac ''JID_1'')) finished,
         Log INFO ''- PASS: Command passed to check job status, code 200 returned'' [],
         Sleep 10,
         Log INFO ''- PASS: job id %s successfully scheduled'' [S ''JID_1'']]\<rparr>)"
  using get_job_status_delays[of idrac "''JID_1''" "\<lparr>script = [finished], events = []\<rparr>"]
  by (simp add: scheduled_def message_def finished_def)

section \<open>Properties of the job queue\<close>

lemma delete_jobs_run:
  "length ds = length queue \<Longrightarrow> script w = ds @ rest \<Longrightarrow>
   delete_jobs self queue w =
     (Return (), w\<lparr>script := rest, events := events w @ delete_events self queue ds\<rparr>)"
proof (induction queue arbitrary: ds w)
  case Nil
  then show ?case by (simp add: ret_def delete_events_def)
next
  case (Cons job jobs)
  then obtain d ds' where ds: "ds = d # ds'" by (cases ds) auto
  let ?w = "w\<lparr>script := ds' @ rest,
     events := events w @ [Http (DELETE (jobs_url self @ ''/'' @ py_strip {quote} job)) d]\<rparr>"
  have "delete_jobs self jobs ?w =
     (Return (), ?w\<lparr>script := rest, events := events ?w @ delete_events self jobs ds'\<rparr>)"
    using Cons.prems ds by (intro Cons.IH) auto
  then show ?case using Cons.prems ds
    by (simp add: bind_def http_def delete_events_def)
qed

text \<open>
  Claim C10. \<open>clear_job_queue\<close> with an empty list makes no request and returns. With a
  list that is not empty it makes one DELETE for each job, whatever the responses to the
  DELETE requests are, then reads the job queue once again, and returns when that read
  finds no job and exits with code 1 when it finds one.
\<close>

theorem clear_job_queue_run:
  "clear_job_queue self [] w =
     (Return (), w\<lparr>events := events w @
        [Log WARNING (newline #
           ''- WARNING, job queue already cleared for iDRAC %s, DELETE command will not execute'')
           [S (host self)]]\<rparr>)
   \<and> (\<forall>ds q rest. queue \<noteq> [] \<and> length ds = length queue \<and> script w = ds @ q # rest
          \<and> json q \<noteq> None \<longrightarrow>
        clear_job_queue self queue w =
          (if re_findall quote (json_str q) = [] then Return () else Exit 1,
           w\<lparr>script := rest, events := events w @
              [Log WARNING (newline # ''- WARNING, clearing job queue for job IDs: %s'' @ [newline])
                 [SL queue]]
              @ delete_events self queue ds
              @ [Http (GET (jobs_url self)) q,
                 if re_findall quote (json_str q) = []
                 then Log INFO ''- PASS, job queue for iDRAC %s successfully cleared''
                        [S (host self)]
                 else Log ERROR
                        ''- FAIL, job queue not cleared, current job queue contains jobs: %s''
                        [SL (re_findall quote (json_str q))]]\<rparr>))"
proof (intro conjI allI impI)
  show "clear_job_queue self [] w =
     (Return (), w\<lparr>events := events w @
        [Log WARNING (newline #
           ''- WARNING, job queue already cleared for iDRAC %s, DELETE command will not execute'')
           [S (host self)]]\<rparr>)"
    by (simp add: clear_job_queue_def logger_def emit_def)
next
  fix ds q rest
  assume a: "queue \<noteq> [] \<and> length ds = length queue \<and> script w = ds @ q # rest \<and> json q \<noteq> None"
  let ?w1 = "w\<lparr>events := events w @
     [Log WARNING (newline # ''- WARNING, clearing job queue for job IDs: %s'' @ [newline])
        [SL queue]]\<rparr>"
  have d: "delete_jobs self queue ?w1 =
     (Return (), ?w1\<lparr>script := q # rest, events := events ?w1 @ delete_events self queue ds\<rparr>)"
    using a by (intro delete_jobs_run) auto
  from a obtain data where "json q = Some data" by auto
  with a d show "clear_job_queue self queue w =
          (if re_findall quote (json_str q) = [] then Return () else Exit 1,
           w\<lparr>script := rest, events := events w @
              [Log WARNING (newline # ''- WARNING, clearing job queue for job IDs: %s'' @ [newline])
                 [SL queue]]
              @ delete_events self queue ds
              @ [Http (GET (jobs_url self)) q,
                 if re_findall quote (json_str q) = []
                 then Log INFO ''- PASS, job queue for iDRAC %s successfully cleared''
                        [S (host self)]
                 else Log ERROR
                        ''- FAIL, job queue not cleared, current job queue contains jobs: %s''
                        [SL (re_findall quote (json_str q))]]\<rparr>)"
    by (simp add: clear_job_queue_def get_job_queue_def bind_def logger_def emit_def http_def
        resp_json_def ret_def sys_exit_def)
qed

theorem clear_job_queue_run_witness:
  "clear_job_queue idrac [''JID_471269252011'' @ [quote]]
     \<lparr>script = [refused, empty_queue], events = []\<rparr> =
     (Return (), \<lparr>script = [], events =
        [Log WARNING (newline # ''- WARNING, clearing job queue for job IDs: %s'' @ [newline])
           [SL [''JID_471269252011'' @ [quote]]],
         Http (DELETE (jobs_url idrac @ ''/JID_471269252011'')) refused,
         Http (GET (jobs_url idrac)) empty_queue,
         Log INFO ''- PASS, job queue for iDRAC %s successfully cleared'' [S (host idrac)]]\<rparr>)"
  using clear_job_queue_run[of idrac "\<lparr>script = [refused, empty_queue], events = []\<rparr>"
      "[''JID_471269252011'' @ [quote]]", THEN conjunct2, rule_format,
      of "[refused]" empty_queue "[]"]
  by (simp add: delete_events_def re_findall_def match_jid_def empty_queue_def py_strip_def
      quote_def)

section \<open>Rewriting sequences of steps\<close>

lemma bind_ret [simp]: "bind (ret v) f w = f v w"
  by (simp add: bind_def ret_def)

lemma bind_lift_Inr [simp]: "bind (lift (Inr v)) f w = f v w"
  by (simp add: bind_def lift_def ret_def)

lemma bind_lift_Inl [simp]: "bind (lift (Inl e)) f w = (Raise e, w)"
  by (simp add: bind_def lift_def raise_def)

lemma bind_raise [simp]: "bind (raise e) f w = (Raise e, w)"
  by (simp add: bind_def raise_def)

lemma bind_sys_exit [simp]: "bind (sys_exit n) f w = (Exit n, w)"
  by (simp add: bind_def sys_exit_def)

lemma bind_logger [simp]:
  "bind (logger l msg a) f w = f () (w\<lparr>events := events w @ [Log l msg a]\<rparr>)"
  by (simp add: bind_def logger_def emit_def)

lemma bind_sleep [simp]:
  "bind (sleep n) f w = f () (w\<lparr>events := events w @ [Sleep n]\<rparr>)"
  by (simp add: bind_def sleep_def emit_def)

lemma bind_http_Cons:
  "script w = r # rs \<Longrightarrow>
   bind (http rq) f w = f r (w\<lparr>script := rs, events := events w @ [Http rq r]\<rparr>)"
  by (simp add: bind_def http_def)

lemma bind_http_Nil: "script w = [] \<Longrightarrow> bind (http rq) f w = (Starved, w)"
  by (simp add: bind_def http_def)

section \<open>Properties of the reconciliation\<close>

subsection \<open>What the two loops compute\<close>

lemma first_named_Cons:
  "first_named name (d # ds) = (if Name d = name then 0 else Suc (first_named name ds))"
  by (simp add: first_named_def)

lemma assign_index_length [simp]: "length (fst (assign_index name i devs)) = length devs"
  by (induction devs) (auto split: prod.splits)

lemma assign_index_names [simp]: "map Name (fst (assign_index name i devs)) = map Name devs"
  by (induction devs) (auto split: prod.splits)

lemma assign_index_nth:
  "j < length devs \<Longrightarrow>
   fst (assign_index name i devs) ! j =
     (if first_named name devs = j then (devs ! j)\<lparr>Index := i\<rparr> else devs ! j)"
proof (induction devs arbitrary: j)
  case Nil
  then show ?case by simp
next
  case (Cons d ds)
  show ?case
  proof (cases j)
    case 0
    then show ?thesis by (auto simp: first_named_Cons split: prod.splits)
  next
    case (Suc j')
    with Cons show ?thesis by (auto simp: first_named_Cons split: prod.splits)
  qed
qed

lemma first_named_names:
  "map Name devs' = map Name devs \<Longrightarrow> first_named name devs' = first_named name devs"
proof -
  assume a: "map Name devs' = map Name devs"
  have "\<And>ds. first_named name ds = length (takeWhile (\<lambda>n. n \<noteq> name) (map Name ds))"
    by (simp add: first_named_def takeWhile_map comp_def)
  with a show ?thesis by simp
qed

lemma reconcile_length [simp]: "length (fst (reconcile names k devs c)) = length devs"
proof (induction names arbitrary: k devs c)
  case Nil
  show ?case by simp
next
  case (Cons name names)
  have "length (fst (reconcile names (Suc k) (fst (assign_index name (int k) devs)) c'))
      = length devs" for c'
    using Cons[of "Suc k" "fst (assign_index name (int k) devs)" c'] by simp
  then show ?case by (simp split: prod.splits) (metis fst_conv)
qed

lemma reconcile_names [simp]: "map Name (fst (reconcile names k devs c)) = map Name devs"
proof (induction names arbitrary: k devs c)
  case Nil
  show ?case by simp
next
  case (Cons name names)
  have "map Name (fst (reconcile names (Suc k) (fst (assign_index name (int k) devs)) c'))
      = map Name devs" for c'
    using Cons[of "Suc k" "fst (assign_index name (int k) devs)" c'] by simp
  then show ?case by (simp split: prod.splits) (metis fst_conv)
qed

lemma reconcile_Cons:
  "fst (reconcile (name # names) k devs c) =
   fst (reconcile names (Suc k) (fst (assign_index name (int k) devs))
          (c \<or> snd (assign_index name (int k) devs)))"
  by (simp split: prod.splits)

lemma reconcile_nth:
  "j < length devs \<Longrightarrow>
   fst (reconcile names k devs c) ! j =
     (if first_named (Name (devs ! j)) devs = j \<and> Name (devs ! j) \<in> set names
      then (devs ! j)\<lparr>Index := int (k + last_pos names (Name (devs ! j)))\<rparr>
      else devs ! j)"
proof (induction names arbitrary: k devs c)
  case Nil
  show ?case by simp
next
  case (Cons name names)
  let ?d1 = "fst (assign_index name (int k) devs)"
  let ?c1 = "c \<or> snd (assign_index name (int k) devs)"
  have j1: "j < length ?d1" using Cons.prems by simp
  have nm: "Name (?d1 ! j) = Name (devs ! j)"
    using Cons.prems by (metis assign_index_names assign_index_length nth_map)
  have fn: "first_named x ?d1 = first_named x devs" for x
    by (rule first_named_names) simp
  have IH: "fst (reconcile names (Suc k) ?d1 ?c1) ! j =
     (if first_named (Name (devs ! j)) devs = j \<and> Name (devs ! j) \<in> set names
      then (?d1 ! j)\<lparr>Index := int (Suc k + last_pos names (Name (devs ! j)))\<rparr>
      else ?d1 ! j)"
    using Cons.IH[OF j1, of "Suc k" ?c1] by (simp add: nm fn)
  have a: "?d1 ! j = (if first_named name devs = j then (devs ! j)\<lparr>Index := int k\<rparr> else devs ! j)"
    using Cons.prems by (rule assign_index_nth)
  have b: "first_named name devs = j \<Longrightarrow> Name (devs ! j) = name"
    using Cons.prems unfolding first_named_def
    by (metis (mono_tags, lifting) nth_length_takeWhile)
  show ?case
    unfolding reconcile_Cons IH a using b by auto
qed

lemma last_pos_less: "x \<in> set names \<Longrightarrow> last_pos names x < length names"
  by (induction names) auto

lemma last_pos_nth:
  "distinct names \<Longrightarrow> i < length names \<Longrightarrow> last_pos names (names ! i) = i"
proof (induction names arbitrary: i)
  case Nil
  then show ?case by simp
next
  case (Cons y ys)
  then show ?case by (cases i) auto
qed

lemma first_named_distinct:
  "distinct (map Name devs) \<Longrightarrow> j < length devs \<Longrightarrow> first_named (Name (devs ! j)) devs = j"
proof (induction devs arbitrary: j)
  case Nil
  then show ?case by simp
next
  case (Cons d ds)
  then show ?case by (cases j) (auto simp: first_named_Cons)
qed

lemma sorted_keys_unique:
  fixes ks :: "int list"
  assumes "sorted ks" "sorted ls" "mset ks = mset ls"
  shows "ks = ls"
  using assms by (metis properties_for_sort)

lemma reconcile_sorted_names:
  assumes dd: "distinct desired"
    and sub: "set desired \<subseteq> Name ` set devs"
    and dn: "distinct (map Name devs)"
    and oth: "\<forall>d\<in>set devs. Name d \<notin> set desired \<longrightarrow> int (length desired) \<le> Index d"
  shows "take (length desired) (map Name (sort_key Index (fst (reconcile desired 0 devs c))))
         = desired"
proof -
  let ?n = "length desired"
  let ?devs' = "fst (reconcile desired 0 devs c)"
  let ?ys = "sort_key Index ?devs'"
  have nth': "?devs' ! j =
      (if Name (devs ! j) \<in> set desired
       then (devs ! j)\<lparr>Index := int (last_pos desired (Name (devs ! j)))\<rparr> else devs ! j)"
    if "j < length devs" for j
    using reconcile_nth[OF that, of desired 0 c] first_named_distinct[OF dn that] by simp
  have B: "(Name d' \<in> set desired \<and> Index d' = int (last_pos desired (Name d')))
         \<or> (Name d' \<notin> set desired \<and> int ?n \<le> Index d')" if "d' \<in> set ?devs'" for d'
  proof -
    from that obtain j where j: "j < length devs" "d' = ?devs' ! j"
      by (metis in_set_conv_nth reconcile_length)
    show ?thesis
    proof (cases "Name (devs ! j) \<in> set desired")
      case True
      with j nth'[OF j(1)] show ?thesis by simp
    next
      case False
      with j nth'[OF j(1)] oth show ?thesis by simp
    qed
  qed
  have named: "Name d' = desired ! i" if "d' \<in> set ?devs'" "Index d' = int i" "i < ?n" for d' i
  proof -
    from B[OF that(1)] that(2,3) have a: "Name d' \<in> set desired" "last_pos desired (Name d') = i"
      by auto
    then obtain i' where "i' < ?n" "Name d' = desired ! i'" by (metis in_set_conv_nth)
    with a dd show ?thesis by (simp add: last_pos_nth)
  qed
  have ex: "\<exists>d'\<in>set ?devs'. Index d' = int i" if "i < ?n" for i
  proof -
    from that sub have "desired ! i \<in> Name ` set devs" by auto
    then obtain j where j: "j < length devs" "Name (devs ! j) = desired ! i"
      by (metis imageE in_set_conv_nth)
    with that nth'[OF j(1)] dd have "Index (?devs' ! j) = int i" by (simp add: last_pos_nth)
    moreover have "?devs' ! j \<in> set ?devs'" using j by simp
    ultimately show ?thesis by blast
  qed
  have dn': "distinct (map Name ?devs')" using dn by simp
  have low: "mset (filter (\<lambda>k. k < int ?n) (map Index ?devs')) = mset (map int [0..<?n])"
  proof (subst set_eq_iff_mset_eq_distinct[symmetric])
    have "inj_on Index {d' \<in> set ?devs'. Index d' < int ?n}"
    proof (rule inj_onI)
      fix a b
      assume a: "a \<in> {d' \<in> set ?devs'. Index d' < int ?n}"
        and b: "b \<in> {d' \<in> set ?devs'. Index d' < int ?n}" and e: "Index a = Index b"
      from a B[of a] have "Index a = int (last_pos desired (Name a))" by auto
      with a named[of a "last_pos desired (Name a)"] have na: "Name a = desired ! nat (Index a)"
        by auto
      from b B[of b] have "Index b = int (last_pos desired (Name b))" by auto
      with b named[of b "last_pos desired (Name b)"] have nb: "Name b = desired ! nat (Index b)"
        by auto
      from na nb e have "Name a = Name b" by simp
      with dn' a b show "a = b" by (metis (mono_tags, lifting) distinct_map inj_onD mem_Collect_eq)
    qed
    moreover have "distinct ?devs'" using dn' by (simp only: distinct_map)
    ultimately show "distinct (filter (\<lambda>k. k < int ?n) (map Index ?devs'))"
      by (simp add: filter_map comp_def distinct_map)
  next
    show "distinct (map int [0..<?n])" by (simp add: distinct_map)
  next
    show "set (filter (\<lambda>k. k < int ?n) (map Index ?devs')) = set (map int [0..<?n])"
    proof (rule set_eqI, rule iffI)
      fix k assume "k \<in> set (filter (\<lambda>k. k < int ?n) (map Index ?devs'))"
      then obtain d' where d': "d' \<in> set ?devs'" "Index d' = k" "k < int ?n" by auto
      with B[OF d'(1)] have "k = int (last_pos desired (Name d'))" by auto
      with d' show "k \<in> set (map int [0..<?n])" by auto
    next
      fix k assume "k \<in> set (map int [0..<?n])"
      then obtain i where "i < ?n" "k = int i" by auto
      with ex[of i] show "k \<in> set (filter (\<lambda>k. k < int ?n) (map Index ?devs'))"
        by (auto simp: image_iff) (metis)
    qed
  qed
  let ?hi = "sort (filter (\<lambda>k. \<not> k < int ?n) (map Index ?devs'))"
  have "mset (map Index ?ys) = mset (map Index ?devs')" by simp
  also have "\<dots> = mset (filter (\<lambda>k. k < int ?n) (map Index ?devs'))
                + mset (filter (\<lambda>k. \<not> k < int ?n) (map Index ?devs'))"
    by (metis mset_filter multiset_partition)
  also have "\<dots> = mset (map int [0..<?n] @ ?hi)" using low by simp
  finally have ms: "mset (map Index ?ys) = mset (map int [0..<?n] @ ?hi)" .
  have s1: "sorted (map Index ?ys)" by simp
  have s2: "sorted (map int [0..<?n] @ ?hi)"
    by (auto simp: sorted_append sorted_map intro!: sorted_wrt_mono_rel[of _ "(<)"] )
  have keys: "map Index ?ys = map int [0..<?n] @ ?hi"
    using sorted_keys_unique[OF s1 s2 ms] .
  have len: "?n \<le> length ?ys"
  proof -
    have "length (map Index ?ys) = length (map int [0..<?n] @ ?hi)" by (simp only: keys)
    then show ?thesis by simp
  qed
  have ki: "Index (?ys ! i) = int i" if "i < ?n" for i
  proof -
    have "map Index ?ys ! i = (map int [0..<?n] @ ?hi) ! i" by (simp only: keys)
    with that len show ?thesis by (simp add: nth_append)
  qed
  show ?thesis
  proof (rule nth_equalityI)
    show "length (take ?n (map Name ?ys)) = length desired" using len by simp
  next
    fix i assume "i < length (take ?n (map Name ?ys))"
    then have i: "i < ?n" by simp
    then have "?ys ! i \<in> set ?devs'" using len by (metis nth_mem order_less_le_trans set_sort)
    from named[OF this ki[OF i] i] i len show "take ?n (map Name ?ys) ! i = desired ! i"
      by simp
  qed
qed

lemma assign_index_flag:
  "snd (assign_index name i devs) =
     (first_named name devs < length devs \<and> Index (devs ! first_named name devs) \<noteq> i)"
  by (induction devs) (auto simp: first_named_Cons split: prod.splits)

lemma assign_index_same:
  "\<not> snd (assign_index name i devs) \<Longrightarrow> fst (assign_index name i devs) = devs"
  by (induction devs) (auto split: prod.splits if_splits)

lemma misplaced_Cons:
  "misplaced (name # names) k devs =
     ((first_named name devs < length devs \<and> Index (devs ! first_named name devs) \<noteq> int k)
      \<or> misplaced names (Suc k) devs)"
proof -
  have "(\<exists>i<Suc (length names). P i) = (P 0 \<or> (\<exists>i<length names. P (Suc i)))" for P
    by (metis less_Suc_eq_0_disj)
  then show ?thesis unfolding misplaced_def by (simp add: algebra_simps)
qed

lemma reconcile_step:
  "reconcile (name # names) k devs c =
   reconcile names (Suc k) (fst (assign_index name (int k) devs))
     (c \<or> snd (assign_index name (int k) devs))"
  by (simp split: prod.splits)

lemma reconcile_flag:
  "snd (reconcile names k devs c) = (c \<or> misplaced names k devs)"
proof (induction names arbitrary: k devs c)
  case Nil
  show ?case by (simp add: misplaced_def)
next
  case (Cons name names)
  show ?case
  proof (cases "snd (assign_index name (int k) devs)")
    case True
    then have "snd (reconcile (name # names) k devs c) = True"
      using Cons[of "Suc k" "fst (assign_index name (int k) devs)" True]
      by (simp only: reconcile_step) simp
    with True show ?thesis by (simp add: misplaced_Cons assign_index_flag)
  next
    case False
    then have nf: "\<not> (first_named name devs < length devs
        \<and> Index (devs ! first_named name devs) \<noteq> int k)"
      by (simp add: assign_index_flag)
    from False have "fst (assign_index name (int k) devs) = devs" by (rule assign_index_same)
    with False have "assign_index name (int k) devs = (devs, False)"
      by (metis prod.collapse)
    with nf Cons[of "Suc k" devs c] show ?thesis
      by (auto simp: misplaced_Cons)
  qed
qed

lemma reconcile_same:
  "\<not> misplaced names k devs \<Longrightarrow> reconcile names k devs c = (devs, c)"
proof (induction names arbitrary: k c)
  case Nil
  show ?case by simp
next
  case (Cons name names)
  then have a: "\<not> snd (assign_index name (int k) devs)" "\<not> misplaced names (Suc k) devs"
    by (simp_all add: misplaced_Cons assign_index_flag)
  then have "assign_index name (int k) devs = (devs, False)"
    by (metis assign_index_same prod.collapse)
  with Cons.IH[OF a(2)] show ?case by simp
qed

lemma in_order_not_misplaced:
  assumes dn: "distinct (map Name devs)"
    and ix: "map Index (sort_key Index devs) = map int [0..<length devs]"
    and de: "desired = take n (map Name (sort_key Index devs))"
  shows "\<not> misplaced desired 0 devs"
proof
  let ?ys = "sort_key Index devs"
  assume "misplaced desired 0 devs"
  then obtain i where i: "i < length desired"
      "Index (devs ! first_named (desired ! i) devs) \<noteq> int i"
    by (auto simp: misplaced_def)
  from i(1) de have il: "i < length devs" "i < n" by simp_all
  then have nm: "desired ! i = Name (?ys ! i)" using de by simp
  have "?ys ! i \<in> set devs" using il by (metis length_sort nth_mem set_sort)
  then obtain j where j: "j < length devs" "devs ! j = ?ys ! i" by (metis in_set_conv_nth)
  then have "first_named (desired ! i) devs = j"
    using first_named_distinct[OF dn j(1)] nm by simp
  moreover have "Index (?ys ! i) = int i"
  proof -
    have "map Index ?ys ! i = map int [0..<length devs] ! i" by (simp only: ix)
    with il show ?thesis by simp
  qed
  ultimately show False using i(2) j by simp
qed

subsection \<open>A run of \<open>change_boot_order\<close>\<close>

lemma get_bios_boot_mode_run:
  "script w = r # rs \<Longrightarrow> attribute r ''BootMode'' = Some m \<Longrightarrow>
   get_bios_boot_mode self w =
     (Return m, w\<lparr>script := rs, events := events w @ [Http (GET (bios_url self)) r]\<rparr>)"
  by (auto simp: get_bios_boot_mode_def prog_defs attribute_def bios_url_def
      split: option.splits sum.splits)

lemma get_boot_devices_run:
  "script w = r # rs \<Longrightarrow> attribute r boot_seq = Some v \<Longrightarrow>
   get_boot_devices self boot_seq w =
     (Return v, w\<lparr>script := rs, events := events w @ [Http (GET (boot_sources_url self)) r]\<rparr>)"
  by (auto simp: get_boot_devices_def prog_defs attribute_def boot_sources_url_def
      split: option.splits sum.splits)

lemma change_boot_order_run:
  assumes "fs path = Definitions defs"
    and "lookup defs (interfaces_key (str_opt host_type) (host_model self)) = Inr v"
    and "script w = r1 # r2 # rest"
    and "attribute r1 ''BootMode'' = Some m"
    and "attribute r2 (get_boot_seq m) = Some (JDevices devs)"
  shows "change_boot_order fs self path host_type w =
     (if patch_needed (py_split CHR '','' v) devs
      then bind (http (PATCH (boot_sources_settings_url self)
                   (boot_order_payload (get_boot_seq m)
                      (patch_devices (py_split CHR '','' v) devs))))
             (\<lambda>response.
                if status_code response = 200
                then logger INFO ''- PASS: PATCH command passed to update boot order'' []
                else logger ERROR ''- FAIL: There was something wrong with your request'' [])
             (w\<lparr>script := rest, events := events w @
                [Http (GET (bios_url self)) r1, Http (GET (boot_sources_url self)) r2]\<rparr>)
      else (Exit 0, w\<lparr>script := rest, events := events w @
                [Http (GET (bios_url self)) r1, Http (GET (boot_sources_url self)) r2,
                 Log WARNING
                   ''- WARNING: No changes were made since the boot order already matches the requested.''
                   []]\<rparr>))"
proof -
  let ?w1 = "w\<lparr>script := r2 # rest, events := events w @ [Http (GET (bios_url self)) r1]\<rparr>"
  let ?w2 = "?w1\<lparr>script := rest,
     events := events ?w1 @ [Http (GET (boot_sources_url self)) r2]\<rparr>"
  have a: "bind (get_bios_boot_mode self) f w = f m ?w1" for f :: "json \<Rightarrow> unit prog"
    using get_bios_boot_mode_run[OF assms(3,4), of self] by (simp add: bind_def)
  have b: "bind (get_boot_devices self (get_boot_seq m)) f ?w1 = f (JDevices devs) ?w2"
    for f :: "json \<Rightarrow> unit prog"
    using get_boot_devices_run[of ?w1 r2 rest "get_boot_seq m" "JDevices devs" self] assms(5)
    by (simp add: bind_def)
  have c: "bind (lift (lookup defs (interfaces_key (str_opt host_type) (host_model self)))) f w
      = f v w" for f :: "string \<Rightarrow> unit prog"
    using assms(2) by (simp add: bind_def lift_def ret_def)
  show ?thesis
    unfolding change_boot_order_def
    by (simp add: assms(1) a b c patch_needed_def patch_devices_def boot_order_payload_def
        split: prod.splits)
       (simp add: bind_def logger_def emit_def sys_exit_def)
qed

lemma host_model_idrac: "host_model idrac = ''r620''"
  by (simp add: host_model_def idrac_def)

lemma split_foreman: "py_split CHR '','' (nic2 @ CHR '','' # nic1) = [nic2, nic1]"
  by (simp add: nic1_def nic2_def)

lemma names_distinct: "nic1 \<noteq> nic2" "nic1 \<noteq> hdd" "nic2 \<noteq> hdd" "nic2 \<noteq> nic1" "hdd \<noteq> nic1" "hdd \<noteq> nic2"
  by (simp_all add: nic1_def nic2_def hdd_def)

lemma patch_in_order:
  "patch_devices [nic2, nic1] in_order
     = [\<lparr>Name = nic1, Index = 1\<rparr>, \<lparr>Name = nic2, Index = 0\<rparr>, \<lparr>Name = hdd, Index = 2\<rparr>]"
  "patch_needed [nic2, nic1] in_order"
  by (simp_all add: patch_devices_def patch_needed_def in_order_def names_distinct)

lemma sort_director_order:
  "sort_key Index director_order
     = [\<lparr>Name = nic1, Index = 0\<rparr>, \<lparr>Name = nic2, Index = 1\<rparr>, \<lparr>Name = hdd, Index = 2\<rparr>]"
  by (simp add: director_order_def)

lemma split_director: "py_split CHR '','' (nic1 @ CHR '','' # nic2) = [nic1, nic2]"
  by (simp add: nic1_def nic2_def)

subsection \<open>The claims\<close>

text \<open>
  Claim C4, as amended. The reconciliation keeps the devices and their names, and a device
  whose name is not among the desired interfaces keeps its index. When the desired names
  are pairwise distinct, each of them names a device, the device names are pairwise
  distinct and every device not named has an index of at least the number of desired
  interfaces, the devices of the patch sorted by index begin with the desired interfaces,
  in their order. When an index was written, \<open>change_boot_order\<close> sends these devices in
  one PATCH.
\<close>

theorem reconcile_patch:
  "map Name (patch_devices desired devs) = map Name devs
   \<and> (\<forall>j<length devs. Name (devs ! j) \<notin> set desired \<longrightarrow>
         patch_devices desired devs ! j = devs ! j)
   \<and> (distinct desired \<and> set desired \<subseteq> Name ` set devs \<and> distinct (map Name devs)
        \<and> (\<forall>d\<in>set devs. Name d \<notin> set desired \<longrightarrow> int (length desired) \<le> Index d) \<longrightarrow>
      take (length desired) (map Name (sort_key Index (patch_devices desired devs))) = desired)
   \<and> (fs path = Definitions defs
        \<and> lookup defs (interfaces_key (str_opt host_type) (host_model self)) = Inr v
        \<and> py_split CHR '','' v = desired
        \<and> script w = r1 # r2 # r3 # rest
        \<and> attribute r1 ''BootMode'' = Some m
        \<and> attribute r2 (get_boot_seq m) = Some (JDevices devs)
        \<and> patch_needed desired devs \<longrightarrow>
      change_boot_order fs self path host_type w =
        (Return (), w\<lparr>script := rest, events := events w @
           [Http (GET (bios_url self)) r1,
            Http (GET (boot_sources_url self)) r2,
            Http (PATCH (boot_sources_settings_url self)
                   (boot_order_payload (get_boot_seq m) (patch_devices desired devs))) r3,
            if status_code r3 = 200
            then Log INFO ''- PASS: PATCH command passed to update boot order'' []
            else Log ERROR ''- FAIL: There was something wrong with your request'' []]\<rparr>))"
proof (intro conjI allI impI)
  show "map Name (patch_devices desired devs) = map Name devs"
    by (simp add: patch_devices_def)
next
  fix j assume "j < length devs" "Name (devs ! j) \<notin> set desired"
  then show "patch_devices desired devs ! j = devs ! j"
    by (simp add: patch_devices_def reconcile_nth)
next
  assume "distinct desired \<and> set desired \<subseteq> Name ` set devs \<and> distinct (map Name devs)
        \<and> (\<forall>d\<in>set devs. Name d \<notin> set desired \<longrightarrow> int (length desired) \<le> Index d)"
  then show "take (length desired) (map Name (sort_key Index (patch_devices desired devs)))
      = desired"
    unfolding patch_devices_def by (intro reconcile_sorted_names) simp_all
next
  assume a: "fs path = Definitions defs
        \<and> lookup defs (interfaces_key (str_opt host_type) (host_model self)) = Inr v
        \<and> py_split CHR '','' v = desired
        \<and> script w = r1 # r2 # r3 # rest
        \<and> attribute r1 ''BootMode'' = Some m
        \<and> attribute r2 (get_boot_seq m) = Some (JDevices devs)
        \<and> patch_needed desired devs"
  then have "change_boot_order fs self path host_type w =
     (if patch_needed (py_split CHR '','' v) devs
      then bind (http (PATCH (boot_sources_settings_url self)
                   (boot_order_payload (get_boot_seq m)
                      (patch_devices (py_split CHR '','' v) devs))))
             (\<lambda>response.
                if status_code response = 200
                then logger INFO ''- PASS: PATCH command passed to update boot order'' []
                else logger ERROR ''- FAIL: There was something wrong with your request'' [])
             (w\<lparr>script := r3 # rest, events := events w @
                [Http (GET (bios_url self)) r1, Http (GET (boot_sources_url self)) r2]\<rparr>)
      else (Exit 0, w\<lparr>script := r3 # rest, events := events w @
                [Http (GET (bios_url self)) r1, Http (GET (boot_sources_url self)) r2,
                 Log WARNING
                   ''- WARNING: No changes were made since the boot order already matches the requested.''
                   []]\<rparr>))"
    using change_boot_order_run[of fs path defs host_type self v w r1 r2 "r3 # rest" m devs]
    by simp
  with a show "change_boot_order fs self path host_type w =
        (Return (), w\<lparr>script := rest, events := events w @
           [Http (GET (bios_url self)) r1,
            Http (GET (boot_sources_url self)) r2,
            Http (PATCH (boot_sources_settings_url self)
                   (boot_order_payload (get_boot_seq m) (patch_devices desired devs))) r3,
            if status_code r3 = 200
            then Log INFO ''- PASS: PATCH command passed to update boot order'' []
            else Log ERROR ''- FAIL: There was something wrong with your request'' []]\<rparr>)"
    by (simp add: bind_http_Cons logger_def emit_def)
qed

theorem reconcile_patch_witness:
  "take 2 (map Name (sort_key Index (patch_devices [nic2, nic1] in_order))) = [nic2, nic1]
   \<and> patch_devices [nic2, nic1] in_order ! 2 = \<lparr>Name = hdd, Index = 2\<rparr>
   \<and> change_boot_order interfaces_yml idrac ''idrac_interfaces.yml'' (Some ''foreman'')
        \<lparr>script = [bios_response, boot_sources_response in_order, accepted], events = []\<rparr> =
        (Return (), \<lparr>script = [], events =
           [Http (GET (bios_url idrac)) bios_response,
            Http (GET (boot_sources_url idrac)) (boot_sources_response in_order),
            Http (PATCH (boot_sources_settings_url idrac)
                   (boot_order_payload ''BootSeq''
                      [\<lparr>Name = nic1, Index = 1\<rparr>, \<lparr>Name = nic2, Index = 0\<rparr>,
                       \<lparr>Name = hdd, Index = 2\<rparr>])) accepted,
            Log INFO ''- PASS: PATCH command passed to update boot order'' []]\<rparr>)"
  using reconcile_patch[of "[nic2, nic1]" in_order interfaces_yml "''idrac_interfaces.yml''"
      "[(''foreman_r620_interfaces'', nic2 @ '','' @ nic1),
        (''director_r620_interfaces'', nic1 @ '','' @ nic2)]"
      "Some ''foreman''" idrac "nic2 @ '','' @ nic1"
      "\<lparr>script = [bios_response, boot_sources_response in_order, accepted], events = []\<rparr>"
      bios_response "boot_sources_response in_order" accepted "[]" "JStr ''Bios''"]
  by (simp add: patch_in_order split_foreman host_model_idrac interfaces_yml_def lookup_def
      interfaces_key_def str_opt_def attribute_def bios_response_def boot_sources_response_def
      get_boot_seq_def accepted_def names_distinct)

text \<open>
  Claim C4 as it is stated fails: with the disk at index 0 and the two interfaces desired
  in the other order, a patch is made in which the disk keeps index 0, and the devices
  sorted by index begin with the disk.
\<close>

theorem reconcile_patch_counterexample:
  "patch_needed [nic2, nic1] disk_first
   \<and> patch_devices [nic2, nic1] disk_first
       = [\<lparr>Name = hdd, Index = 0\<rparr>, \<lparr>Name = nic1, Index = 1\<rparr>, \<lparr>Name = nic2, Index = 0\<rparr>]
   \<and> take 2 (map Name (sort_key Index (patch_devices [nic2, nic1] disk_first))) = [hdd, nic2]
   \<and> [hdd, nic2] \<noteq> [nic2, nic1]"
  by (simp add: patch_devices_def patch_needed_def disk_first_def names_distinct)

text \<open>
  Claim C5, as amended. When the device names are pairwise distinct, the indices of the
  devices are their positions in the current order (the devices sorted by index) and the
  desired interfaces are the names of the first devices of that order, position for
  position, the reconciliation writes no index; \<open>change_boot_order\<close> then makes its two
  reads and no PATCH, reports that nothing was changed and exits with code 0.
\<close>

theorem in_order_is_noop:
  "distinct (map Name devs)
   \<and> map Index (sort_key Index devs) = map int [0..<length devs]
   \<and> desired = take n (map Name (sort_key Index devs))
   \<longrightarrow>
   reconcile desired 0 devs False = (devs, False)
   \<and> (fs path = Definitions defs
        \<and> lookup defs (interfaces_key (str_opt host_type) (host_model self)) = Inr v
        \<and> py_split CHR '','' v = desired
        \<and> script w = r1 # r2 # rest
        \<and> attribute r1 ''BootMode'' = Some m
        \<and> attribute r2 (get_boot_seq m) = Some (JDevices devs) \<longrightarrow>
      change_boot_order fs self path host_type w =
        (Exit 0, w\<lparr>script := rest, events := events w @
           [Http (GET (bios_url self)) r1,
            Http (GET (boot_sources_url self)) r2,
            Log WARNING
              ''- WARNING: No changes were made since the boot order already matches the requested.''
              []]\<rparr>))"
proof (intro impI conjI)
  assume h: "distinct (map Name devs)
   \<and> map Index (sort_key Index devs) = map int [0..<length devs]
   \<and> desired = take n (map Name (sort_key Index devs))"
  then have nm: "\<not> misplaced desired 0 devs" by (intro in_order_not_misplaced) auto
  then show same: "reconcile desired 0 devs False = (devs, False)" by (rule reconcile_same)
  assume a: "fs path = Definitions defs
        \<and> lookup defs (interfaces_key (str_opt host_type) (host_model self)) = Inr v
        \<and> py_split CHR '','' v = desired
        \<and> script w = r1 # r2 # rest
        \<and> attribute r1 ''BootMode'' = Some m
        \<and> attribute r2 (get_boot_seq m) = Some (JDevices devs)"
  with same show "change_boot_order fs self path host_type w =
        (Exit 0, w\<lparr>script := rest, events := events w @
           [Http (GET (bios_url self)) r1,
            Http (GET (boot_sources_url self)) r2,
            Log WARNING
              ''- WARNING: No changes were made since the boot order already matches the requested.''
              []]\<rparr>)"
    using change_boot_order_run[of fs path defs host_type self v w r1 r2 rest m devs]
    by (simp add: patch_needed_def)
qed

theorem in_order_is_noop_witness:
  "reconcile [nic1, nic2] 0 director_order False = (director_order, False)
   \<and> change_boot_order interfaces_yml idrac ''idrac_interfaces.yml'' (Some ''director'')
        \<lparr>script = [bios_response, boot_sources_response director_order], events = []\<rparr> =
        (Exit 0, \<lparr>script = [], events =
           [Http (GET (bios_url idrac)) bios_response,
            Http (GET (boot_sources_url idrac)) (boot_sources_response director_order),
            Log WARNING
              ''- WARNING: No changes were made since the boot order already matches the requested.''
              []]\<rparr>)"
  using in_order_is_noop[of director_order "[nic1, nic2]" 2 interfaces_yml
      "''idrac_interfaces.yml''"
      "[(''foreman_r620_interfaces'', nic2 @ '','' @ nic1),
        (''director_r620_interfaces'', nic1 @ '','' @ nic2)]"
      "Some ''director''" idrac "nic1 @ '','' @ nic2"
      "\<lparr>script = [bios_response, boot_sources_response director_order], events = []\<rparr>"
      bios_response "boot_sources_response director_order" "[]" "JStr ''Bios''"]
  by (simp add: sort_director_order split_director host_model_idrac interfaces_yml_def
      lookup_def interfaces_key_def str_opt_def attribute_def bios_response_def
      boot_sources_response_def get_boot_seq_def names_distinct)
     (simp add: director_order_def names_distinct)

text \<open>
  Claim C5 as it is stated fails: with two devices of one name, or with a device whose
  index is not its position, the desired interfaces are the current order by name and
  an index is written all the same.
\<close>

theorem in_order_is_noop_counterexample:
  "map Name (sort_key Index twins) = [nic1, nic1]
   \<and> reconcile [nic1, nic1] 0 twins False
       = ([\<lparr>Name = nic1, Index = 1\<rparr>, \<lparr>Name = nic1, Index = 1\<rparr>], True)
   \<and> map Name (sort_key Index far) = [nic1]
   \<and> reconcile [nic1] 0 far False = ([\<lparr>Name = nic1, Index = 0\<rparr>], True)"
  by (simp add: twins_def far_def)

text \<open>
  Claim C8. Through the whole reconciliation a device that is not the first of its name in
  the list keeps its index, also when the list holds two or more devices of one name. The
  first device of a name is the only one written to: it gets the position of its name in
  the desired interfaces as its index (the last such position when the name is desired more
  than once) and is unchanged when its name is not desired. The list keeps its length. One
  desired interface changes at most one device: the round of the reconciliation for the
  position \<open>k\<close> is a single update of the list, at the first device of that name, or nothing
  when no device bears the name.
\<close>

theorem first_match_only:
  "(\<forall>j<length devs. first_named (Name (devs ! j)) devs \<noteq> j \<longrightarrow>
       fst (reconcile desired k devs c) ! j = devs ! j)
   \<and> (\<forall>j<length devs. first_named (Name (devs ! j)) devs = j \<longrightarrow>
       fst (reconcile desired k devs c) ! j =
         (if Name (devs ! j) \<in> set desired
          then (devs ! j)\<lparr>Index := int (k + last_pos desired (Name (devs ! j)))\<rparr>
          else devs ! j))
   \<and> length (fst (reconcile desired k devs c)) = length devs
   \<and> reconcile (name # desired) k devs c =
       reconcile desired (Suc k)
         (if first_named name devs < length devs
          then devs[first_named name devs := (devs ! first_named name devs)\<lparr>Index := int k\<rparr>]
          else devs)
         (c \<or> (first_named name devs < length devs
               \<and> Index (devs ! first_named name devs) \<noteq> int k))
   \<and> fst (assign_index name i devs) =
       (if first_named name devs < length devs
        then devs[first_named name devs := (devs ! first_named name devs)\<lparr>Index := i\<rparr>]
        else devs)"
proof -
  have a: "fst (assign_index name i devs) =
       (if first_named name devs < length devs
        then devs[first_named name devs := (devs ! first_named name devs)\<lparr>Index := i\<rparr>]
        else devs)" for i
    by (rule nth_equalityI) (auto simp: assign_index_nth nth_list_update)
  have s: "reconcile (name # desired) k devs c =
       reconcile desired (Suc k)
         (if first_named name devs < length devs
          then devs[first_named name devs := (devs ! first_named name devs)\<lparr>Index := int k\<rparr>]
          else devs)
         (c \<or> (first_named name devs < length devs
               \<and> Index (devs ! first_named name devs) \<noteq> int k))"
    by (simp only: reconcile_step a[symmetric] assign_index_flag[symmetric])
  show ?thesis
    using a s by (simp add: reconcile_nth)
qed

theorem first_match_only_witness:
  "fst (reconcile [nic2] 0 shadowed False) ! 0 = \<lparr>Name = hdd, Index = 3\<rparr>
   \<and> fst (reconcile [nic2] 0 shadowed False) ! 1 = \<lparr>Name = nic2, Index = 0\<rparr>
   \<and> fst (reconcile [nic2] 0 shadowed False) ! 2 = \<lparr>Name = nic2, Index = 6\<rparr>
   \<and> length (fst (reconcile [nic2] 0 shadowed False)) = 3
   \<and> fst (reconcile [nic1, nic1] 0 twins False) ! 1 = \<lparr>Name = nic1, Index = 1\<rparr>
   \<and> fst (assign_index nic1 7 twins) = [\<lparr>Name = nic1, Index = 7\<rparr>, \<lparr>Name = nic1, Index = 1\<rparr>]"
  using first_match_only[of shadowed "[nic2]" 0 False nic1 7]
    first_match_only[of twins "[nic1, nic1]" 0 False nic1 7]
  by (simp add: twins_def shadowed_def first_named_def All_less_Suc hdd_def nic1_def nic2_def)

section \<open>Properties of the power cycle\<close>

declare wait_for_off.simps [simp del]

lemma lift_Inr [simp]: "lift (Inr v) w = (Return v, w)"
  by (simp add: lift_def ret_def)

lemma lift_Inl [simp]: "lift (Inl e) w = (Raise e, w)"
  by (simp add: lift_def raise_def)

lemma bind_assoc: "bind (bind m f) g w = bind m (\<lambda>x. bind (f x) g) w"
  by (simp add: bind_def split: prod.splits outcome.splits)

lemma power_state_run:
  "script w = r # rs \<Longrightarrow> power r = Some ps \<Longrightarrow>
   power_state self w =
     (Return ps, w\<lparr>script := rs, events := events w @ [Http (GET (system_url self)) r]\<rparr>)"
  by (auto simp: power_state_def power_def bind_http_Cons resp_json_def
      split: option.splits sum.splits)

lemma bind_power_state:
  "script w = r # rs \<Longrightarrow> power r = Some ps \<Longrightarrow>
   bind (power_state self) f w =
     f ps (w\<lparr>script := rs, events := events w @ [Http (GET (system_url self)) r]\<rparr>)"
  by (simp add: bind_def power_state_run)

lemma wait_for_off_Off:
  "script w = r # rs \<Longrightarrow> power r = Some (JStr ''Off'') \<Longrightarrow>
   wait_for_off self c w =
     (Return (), w\<lparr>script := rs, events := events w @
        [Http (GET (system_url self)) r,
         Log INFO ''- PASS: GET command passed to verify server is in OFF state'' []]\<rparr>)"
  by (subst wait_for_off.simps) (simp add: bind_power_state logger_def emit_def)

lemma wait_for_off_wait:
  "script w = r # rs \<Longrightarrow> still_on r \<Longrightarrow> c \<noteq> 10 \<Longrightarrow>
   wait_for_off self c w =
     wait_for_off self (c + 1) (w\<lparr>script := rs, events := events w @
        [Http (GET (system_url self)) r, Sleep 1]\<rparr>)"
  by (subst wait_for_off.simps)
     (auto simp: bind_power_state still_on_def split: option.splits)

lemma wait_for_off_force:
  "script w = r # f # rs \<Longrightarrow> still_on r \<Longrightarrow> status_code f = 204 \<Longrightarrow>
   wait_for_off self 10 w =
     wait_for_off self 10 (w\<lparr>script := rs, events := events w @ force_off_events self r f\<rparr>)"
  by (subst wait_for_off.simps)
     (auto simp: bind_power_state still_on_def force_off_def bind_http_Cons force_off_events_def
       bind_assoc split: option.splits)

lemma resets_append [simp]:
  "resets self t (xs @ ys) = resets self t xs + resets self t ys"
  by (simp add: resets_def)

lemma resets_Nil [simp]: "resets self t [] = 0"
  by (simp add: resets_def)

lemma resets_Cons:
  "resets self t (e # es) = (if is_reset self t e then 1 else 0) + resets self t es"
  by (simp add: resets_def)

lemma reset_payload_inject [simp]: "(reset_payload a = reset_payload b) = (a = b)"
  by (simp add: reset_payload_def)

lemma wait_for_off_run:
  assumes "\<forall>r\<in>set stay. still_on r"
    and "\<forall>f\<in>set fs. status_code f = 204"
    and "power off = Some (JStr ''Off'')"
    and "c \<le> 10"
    and "length fs = length stay - (10 - c)"
    and "script w = take (10 - c) stay @ interleave (drop (10 - c) stay) fs @ off # rest"
  shows "\<exists>evs. wait_for_off self c w = (Return (), w\<lparr>script := rest, events := events w @ evs\<rparr>)
           \<and> resets self ''ForceOff'' evs = length stay - (10 - c)
           \<and> resets self ''On'' evs = 0
           \<and> resets self ''GracefulRestart'' evs = 0"
  using assms
proof (induction stay arbitrary: c w fs)
  case Nil
  then have "script w = off # rest" by simp
  from wait_for_off_Off[OF this Nil.prems(3), of self c] show ?case
    by (intro exI[of _ "[Http (GET (system_url self)) off,
         Log INFO ''- PASS: GET command passed to verify server is in OFF state'' []]"])
       (simp add: resets_Cons is_reset_def)
next
  case (Cons a stay)
  have a: "still_on a" using Cons.prems(1) by simp
  show ?case
  proof (cases "c = 10")
    case True
    with Cons.prems(5) obtain f fs' where fs: "fs = f # fs'" by (cases fs) auto
    with Cons.prems(2) have f: "status_code f = 204" by simp
    let ?w = "w\<lparr>script := interleave stay fs' @ off # rest,
      events := events w @ force_off_events self a f\<rparr>"
    have sw: "script w = a # f # (interleave stay fs' @ off # rest)"
      using Cons.prems(6) True fs by simp
    have step: "wait_for_off self c w = wait_for_off self 10 ?w"
      using wait_for_off_force[OF sw a f, of self] True by simp
    have "\<exists>evs. wait_for_off self 10 ?w
             = (Return (), ?w\<lparr>script := rest, events := events ?w @ evs\<rparr>)
           \<and> resets self ''ForceOff'' evs = length stay - (10 - 10)
           \<and> resets self ''On'' evs = 0
           \<and> resets self ''GracefulRestart'' evs = 0"
      using Cons.prems fs True by (intro Cons.IH) simp_all
    then obtain evs where evs: "wait_for_off self 10 ?w
             = (Return (), ?w\<lparr>script := rest, events := events ?w @ evs\<rparr>)"
       "resets self ''ForceOff'' evs = length stay"
       "resets self ''On'' evs = 0" "resets self ''GracefulRestart'' evs = 0" by auto
    show ?thesis
      using step evs True
      by (intro exI[of _ "force_off_events self a f @ evs"])
         (simp add: force_off_events_def resets_Cons is_reset_def)
  next
    case False
    with Cons.prems(4) obtain k where k: "10 - c = Suc k" "10 - (c + 1) = k"
      by (cases "10 - c") auto
    let ?w = "w\<lparr>script := take k stay @ interleave (drop k stay) fs @ off # rest,
      events := events w @ [Http (GET (system_url self)) a, Sleep 1]\<rparr>"
    have sw: "script w = a # (take k stay @ interleave (drop k stay) fs @ off # rest)"
      using Cons.prems(6) k by simp
    have step: "wait_for_off self c w = wait_for_off self (c + 1) ?w"
      using wait_for_off_wait[OF sw a False, of self] by simp
    have "\<exists>evs. wait_for_off self (c + 1) ?w
             = (Return (), ?w\<lparr>script := rest, events := events ?w @ evs\<rparr>)
           \<and> resets self ''ForceOff'' evs = length stay - (10 - (c + 1))
           \<and> resets self ''On'' evs = 0
           \<and> resets self ''GracefulRestart'' evs = 0"
      using Cons.prems k False by (intro Cons.IH) simp_all
    then obtain evs where evs: "wait_for_off self (c + 1) ?w
             = (Return (), ?w\<lparr>script := rest, events := events ?w @ evs\<rparr>)"
       "resets self ''ForceOff'' evs = length stay - k"
       "resets self ''On'' evs = 0" "resets self ''GracefulRestart'' evs = 0"
      using k by auto
    show ?thesis
      using step evs k
      by (intro exI[of _ "[Http (GET (system_url self)) a, Sleep 1] @ evs"])
         (simp add: resets_Cons is_reset_def)
  qed
qed

lemma power_on_run:
  assumes "script w = p # rest"
  shows "\<exists>logs. snd (power_on self w) = w\<lparr>script := rest, events := events w @
             Http (POST (reset_url self) (reset_payload ''On'')) p # logs\<rparr>
           \<and> filter is_http logs = []
           \<and> (status_code p = 204 \<longrightarrow> fst (power_on self w) = Return ())"
proof (cases "status_code p = 204")
  case True
  with assms show ?thesis
    by (intro exI[of _ "[Log INFO
          ''- PASS: Command passed to power ON server, code return is %s'' [I 204]]"])
       (simp add: power_on_def bind_http_Cons logger_def emit_def)
next
  case False
  show ?thesis
  proof (cases "json p")
    case None
    with False assms show ?thesis
      by (intro exI[of _ "[Log ERROR
            ''- FAIL: Command failed to power ON server, status code is: %s''
            [I (status_code p)]]"])
         (simp add: power_on_def bind_http_Cons resp_json_def)
  next
    case (Some d)
    with False assms show ?thesis
      by (intro exI[of _ "[Log ERROR
            ''- FAIL: Command failed to power ON server, status code is: %s''
            [I (status_code p)],
            Log ERROR ''    Extended Info Message: {0}'' [J d]]"])
         (simp add: power_on_def bind_http_Cons resp_json_def sys_exit_def)
  qed
qed

lemma no_http_no_reset: "filter is_http logs = [] \<Longrightarrow> resets self t logs = 0"
proof (induction logs)
  case Nil
  show ?case by simp
next
  case (Cons e es)
  then show ?case by (cases e) (auto simp: resets_Cons is_reset_def split: if_splits)
qed

lemma reboot_server_run:
  assumes s0: "power s0 = Some (JStr ''On'')"
    and g: "status_code g = 204"
    and stay: "\<forall>r\<in>set stay. still_on r"
    and fs: "\<forall>f\<in>set fs. status_code f = 204"
    and len: "length fs = length stay - 10"
    and off: "power off = Some (JStr ''Off'')"
    and sw: "script w = s0 # g # take 10 stay @ interleave (drop 10 stay) fs @ off # p # rest"
  shows "\<exists>evs. snd (reboot_server self w) = w\<lparr>script := rest, events := events w @ evs\<rparr>
           \<and> resets self ''GracefulRestart'' evs = 1
           \<and> resets self ''ForceOff'' evs = length stay - 10
           \<and> resets self ''On'' evs = 1
           \<and> last (filter is_http evs) = Http (POST (reset_url self) (reset_payload ''On'')) p
           \<and> (status_code p = 204 \<longrightarrow> fst (reboot_server self w) = Return ())"
proof -
  let ?pre = "[Http (GET (system_url self)) s0,
      Log WARNING ''- WARNING: Current server power state is: %s'' [J (JStr ''On'')],
      Http (POST (reset_url self) (reset_payload ''GracefulRestart'')) g,
      Log INFO ''- PASS: Command passed to gracefully restart server, code return is %s''
        [I 204],
      Sleep 3]"
  let ?w1 = "w\<lparr>script := take 10 stay @ interleave (drop 10 stay) fs @ off # p # rest,
      events := events w @ ?pre\<rparr>"
  have start: "reboot_server self w =
      bind (wait_for_off self 0) (\<lambda>_. power_on self) ?w1"
    using sw s0 g
    by (simp add: reboot_server_def bind_power_state graceful_restart_def bind_assoc
        bind_http_Cons)
  have "\<exists>evs. wait_for_off self 0 ?w1
             = (Return (), ?w1\<lparr>script := p # rest, events := events ?w1 @ evs\<rparr>)
           \<and> resets self ''ForceOff'' evs = length stay - (10 - 0)
           \<and> resets self ''On'' evs = 0
           \<and> resets self ''GracefulRestart'' evs = 0"
    using stay fs off len by (intro wait_for_off_run) simp_all
  then obtain evs where evs: "wait_for_off self 0 ?w1
             = (Return (), ?w1\<lparr>script := p # rest, events := events ?w1 @ evs\<rparr>)"
       "resets self ''ForceOff'' evs = length stay - 10"
       "resets self ''On'' evs = 0" "resets self ''GracefulRestart'' evs = 0" by auto
  let ?w2 = "?w1\<lparr>script := p # rest, events := events ?w1 @ evs\<rparr>"
  have run: "reboot_server self w = power_on self ?w2"
    using start evs(1) by (simp add: bind_def)
  have "script ?w2 = p # rest" by simp
  from power_on_run[OF this, of self] obtain logs where logs:
    "snd (power_on self ?w2) = ?w2\<lparr>script := rest, events := events ?w2 @
             Http (POST (reset_url self) (reset_payload ''On'')) p # logs\<rparr>"
    "filter is_http logs = []"
    "status_code p = 204 \<longrightarrow> fst (power_on self ?w2) = Return ()" by blast
  show ?thesis
    using run logs evs(2,3,4) no_http_no_reset[OF logs(2)]
    by (intro exI[of _ "?pre @ evs @ Http (POST (reset_url self) (reset_payload ''On'')) p # logs"])
       (simp add: resets_Cons is_reset_def)
qed

lemma power_reading [simp]: "power (reading s) = Some (JStr s)"
  by (simp add: power_def reading_def)

lemma still_on_reading [simp]: "still_on (reading ''On'')"
  by (simp add: still_on_def)

lemma status_no_content [simp]: "status_code no_content = 204"
  by (simp add: no_content_def)

lemma events_of_run:
  "\<exists>evs. snd x = \<lparr>script = a, events = []\<rparr>\<lparr>script := rest, events := [] @ evs\<rparr> \<and> P evs
   \<Longrightarrow> P (events (snd x))"
  by auto

text \<open>
  Claim C1, as amended. The initial state reads On and the graceful reset is answered 204.
  Let the polls that follow read something other than Off \<open>n\<close> times (the list \<open>stay\<close>) and
  then Off, every forced power-off being answered 204. Then the orchestrator issues one
  graceful reset, exactly \<open>n - 10\<close> forced power-offs (none when \<open>n \<le> 10\<close>, otherwise one
  after each poll from the 11th on that does not read Off) and, once Off is read, exactly
  one power-On, which is its last request. So exactly one forced power-off is issued when
  exactly the first 11 polls read On.
\<close>

theorem reboot_server_force_off:
  assumes "power s0 = Some (JStr ''On'')"
    and "status_code g = 204"
    and "\<forall>r\<in>set stay. still_on r"
    and "\<forall>f\<in>set fs. status_code f = 204"
    and "length fs = length stay - 10"
    and "power off = Some (JStr ''Off'')"
    and "script w = s0 # g # take 10 stay @ interleave (drop 10 stay) fs @ off # p # rest"
  shows "\<exists>evs. snd (reboot_server self w) = w\<lparr>script := rest, events := events w @ evs\<rparr>
           \<and> resets self ''GracefulRestart'' evs = 1
           \<and> resets self ''ForceOff'' evs = length stay - 10
           \<and> resets self ''On'' evs = 1
           \<and> last (filter is_http evs) = Http (POST (reset_url self) (reset_payload ''On'')) p
           \<and> (status_code p = 204 \<longrightarrow> fst (reboot_server self w) = Return ())"
  using assms by (rule reboot_server_run)

theorem reboot_server_force_off_witness:
  "resets idrac ''ForceOff'' (events (snd (reboot_server idrac
      \<lparr>script = reading ''On'' # no_content # take 10 (replicate 11 (reading ''On''))
         @ interleave (drop 10 (replicate 11 (reading ''On''))) [no_content]
         @ reading ''Off'' # no_content # [], events = []\<rparr>))) = 1
   \<and> resets idrac ''On'' (events (snd (reboot_server idrac
      \<lparr>script = reading ''On'' # no_content # take 10 (replicate 11 (reading ''On''))
         @ interleave (drop 10 (replicate 11 (reading ''On''))) [no_content]
         @ reading ''Off'' # no_content # [], events = []\<rparr>))) = 1"
proof -
  let ?w = "\<lparr>script = reading ''On'' # no_content # take 10 (replicate 11 (reading ''On''))
         @ interleave (drop 10 (replicate 11 (reading ''On''))) [no_content]
         @ reading ''Off'' # no_content # [], events = []\<rparr>"
  have "\<exists>evs. snd (reboot_server idrac ?w) = ?w\<lparr>script := [], events := events ?w @ evs\<rparr>
           \<and> resets idrac ''GracefulRestart'' evs = 1
           \<and> resets idrac ''ForceOff'' evs = length (replicate 11 (reading ''On'')) - 10
           \<and> resets idrac ''On'' evs = 1
           \<and> last (filter is_http evs)
               = Http (POST (reset_url idrac) (reset_payload ''On'')) no_content
           \<and> (status_code no_content = 204 \<longrightarrow> fst (reboot_server idrac ?w) = Return ())"
    by (rule reboot_server_force_off[where ?s0.0 = "reading ''On''" and g = no_content
          and stay = "replicate 11 (reading ''On'')" and fs = "[no_content]"
          and off = "reading ''Off''"])
       simp_all
  then obtain evs where "snd (reboot_server idrac ?w) = ?w\<lparr>script := [], events := evs\<rparr>"
    "resets idrac ''ForceOff'' evs = 1" "resets idrac ''On'' evs = 1" by auto
  then show ?thesis by simp
qed

text \<open>
  Claim C1 as it is stated fails twice: when the first 10 polls read On and the 11th reads
  Off, no forced power-off is issued; when the first 12 polls read On, two are.
\<close>

theorem reboot_server_force_off_counterexample:
  "resets idrac ''ForceOff'' (events (snd (reboot_server idrac
      \<lparr>script = reading ''On'' # no_content # replicate 10 (reading ''On'')
         @ [reading ''Off'', no_content], events = []\<rparr>))) = 0
   \<and> resets idrac ''ForceOff'' (events (snd (reboot_server idrac
      \<lparr>script = reading ''On'' # no_content # replicate 10 (reading ''On'')
         @ [reading ''On'', no_content, reading ''On'', no_content, reading ''Off'', no_content],
       events = []\<rparr>))) = 2"
proof
  let ?w = "\<lparr>script = reading ''On'' # no_content # replicate 10 (reading ''On'')
         @ [reading ''Off'', no_content], events = []\<rparr>"
  have "\<exists>evs. snd (reboot_server idrac ?w) = ?w\<lparr>script := [], events := events ?w @ evs\<rparr>
           \<and> resets idrac ''GracefulRestart'' evs = 1
           \<and> resets idrac ''ForceOff'' evs = length (replicate 10 (reading ''On'')) - 10
           \<and> resets idrac ''On'' evs = 1
           \<and> last (filter is_http evs)
               = Http (POST (reset_url idrac) (reset_payload ''On'')) no_content
           \<and> (status_code no_content = 204 \<longrightarrow> fst (reboot_server idrac ?w) = Return ())"
    by (rule reboot_server_run[where ?s0.0 = "reading ''On''" and g = no_content
          and stay = "replicate 10 (reading ''On'')" and fs = "[]"
          and off = "reading ''Off''"])
       simp_all
  then obtain evs where "snd (reboot_server idrac ?w) = ?w\<lparr>script := [], events := evs\<rparr>"
    "resets idrac ''ForceOff'' evs = 0" by auto
  then show "resets idrac ''ForceOff'' (events (snd (reboot_server idrac ?w))) = 0" by simp
next
  let ?w = "\<lparr>script = reading ''On'' # no_content # replicate 10 (reading ''On'')
         @ [reading ''On'', no_content, reading ''On'', no_content, reading ''Off'', no_content],
       events = []\<rparr>"
  have "\<exists>evs. snd (reboot_server idrac ?w) = ?w\<lparr>script := [], events := events ?w @ evs\<rparr>
           \<and> resets idrac ''GracefulRestart'' evs = 1
           \<and> resets idrac ''ForceOff'' evs = length (replicate 12 (reading ''On'')) - 10
           \<and> resets idrac ''On'' evs = 1
           \<and> last (filter is_http evs)
               = Http (POST (reset_url idrac) (reset_payload ''On'')) no_content
           \<and> (status_code no_content = 204 \<longrightarrow> fst (reboot_server idrac ?w) = Return ())"
    by (rule reboot_server_run[where ?s0.0 = "reading ''On''" and g = no_content
          and stay = "replicate 12 (reading ''On'')" and fs = "[no_content, no_content]"
          and off = "reading ''Off''"])
       (simp_all add: numeral_2_eq_2)
  then obtain evs where "snd (reboot_server idrac ?w) = ?w\<lparr>script := [], events := evs\<rparr>"
    "resets idrac ''ForceOff'' evs = 2" by auto
  then show "resets idrac ''ForceOff'' (events (snd (reboot_server idrac ?w))) = 2" by simp
qed

section \<open>Properties of the check of the boot order\<close>

lemma bind_get_bios_boot_mode:
  "script w = r # rs \<Longrightarrow> attribute r ''BootMode'' = Some m \<Longrightarrow>
   bind (get_bios_boot_mode self) f w =
     f m (w\<lparr>script := rs, events := events w @ [Http (GET (bios_url self)) r]\<rparr>)"
  by (simp add: bind_def get_bios_boot_mode_run)

lemma bind_get_boot_devices:
  "script w = r # rs \<Longrightarrow> attribute r boot_seq = Some v \<Longrightarrow>
   bind (get_boot_devices self boot_seq) f w =
     f v (w\<lparr>script := rs, events := events w @ [Http (GET (boot_sources_url self)) r]\<rparr>)"
  by (simp add: bind_def get_boot_devices_run)

lemma attribute_bios_response [simp]: "attribute bios_response ''BootMode'' = Some (JStr ''Bios'')"
  by (simp add: attribute_def bios_response_def)

lemma attribute_boot_sources_response [simp]:
  "attribute (boot_sources_response devs) ''BootSeq'' = Some (JDevices devs)"
  by (simp add: attribute_def boot_sources_response_def)

text \<open>
  Claim C3 at two inputs. The profile \<open>foreman\<close> is the slot interface, then the integrated
  one. In the first run the devices by index are the slot interface, the disk, the
  integrated interface: the first two names are not the profile, and \<open>check_boot\<close> reports
  \<open>foreman\<close> all the same, because the slice taken in the first round is
  \<open>boot_devices[:1]\<close>: the first device of the list, compared at its own index. In the
  second run the devices by index are exactly the profile, but the disk comes first in the
  list: its index 2 is looked up in the profile of two entries and the run ends in an
  IndexError.
\<close>

theorem check_boot_first_device_only:
  "check_boot interfaces_yml idrac (Some ''idrac_interfaces.yml'')
     \<lparr>script = [bios_response, boot_sources_response slot_disk], events = []\<rparr> =
     (Return None, \<lparr>script = [], events =
        [Http (GET (bios_url idrac)) bios_response,
         Http (GET (boot_sources_url idrac)) (boot_sources_response slot_disk),
         Log INFO (''Current boot order is set to '' @ [quote] @ ''%s'' @ [quote])
           [S ''foreman'']]\<rparr>)
   \<and> take 2 (map Name (sort_key Index slot_disk)) = [nic2, hdd]
   \<and> py_split CHR '','' (nic2 @ '','' @ nic1) = [nic2, nic1]
   \<and> [nic2, hdd] \<noteq> [nic2, nic1]
   \<and> check_boot interfaces_yml idrac (Some ''idrac_interfaces.yml'')
     \<lparr>script = [bios_response, boot_sources_response foreman_unsorted], events = []\<rparr> =
     (Raise IndexError, \<lparr>script = [], events =
        [Http (GET (bios_url idrac)) bios_response,
         Http (GET (boot_sources_url idrac)) (boot_sources_response foreman_unsorted)]\<rparr>)
   \<and> take 2 (map Name (sort_key Index foreman_unsorted)) = [nic2, nic1]"
  by (simp add: check_boot_def bind_get_bios_boot_mode bind_get_boot_devices get_boot_seq_def
      truthy_def str_opt_def interfaces_yml_def host_model_idrac lookup_def interfaces_key_def
      split_foreman slot_disk_def foreman_unsorted_def py_index_def names_distinct bind_assoc ret_def)

section \<open>Properties of the job creation\<close>

lemma no_id: "re_search CHR '','' (dict_str created_without_id) = None"
  by (simp add: created_without_id_def match_jid_def)

text \<open>
  Claim C7, as amended. When the job-creation response has status 200 and its rendering
  holds no match of \<open>JID_.+?,\<close>, \<open>create_bios_config_job\<close> raises an AttributeError that
  nothing catches: the only line given to the logger is the PASS line of the POST, no job
  identifier is returned and nothing that would follow (job polling, reboot) is run.
\<close>

theorem create_bios_config_job_no_id:
  "script w = r # rs \<and> status_code r = 200 \<and> re_search CHR '','' (dict_str r) = None \<longrightarrow>
   create_bios_config_job self uri w =
     (Raise AttributeError, w\<lparr>script := rs, events := events w @
        [Http (POST (jobs_url self) (JObj [(''TargetSettingsURI'', JStr uri)])) r,
         Log INFO
           ''- PASS: POST command passed to create target config job, status code 200 returned.''
           []]\<rparr>)
   \<and> bind (create_bios_config_job self uri) f w =
     (Raise AttributeError, w\<lparr>script := rs, events := events w @
        [Http (POST (jobs_url self) (JObj [(''TargetSettingsURI'', JStr uri)])) r,
         Log INFO
           ''- PASS: POST command passed to create target config job, status code 200 returned.''
           []]\<rparr>)"
proof (intro impI)
  assume a: "script w = r # rs \<and> status_code r = 200 \<and> re_search CHR '','' (dict_str r) = None"
  then have run: "create_bios_config_job self uri w =
     (Raise AttributeError, w\<lparr>script := rs, events := events w @
        [Http (POST (jobs_url self) (JObj [(''TargetSettingsURI'', JStr uri)])) r,
         Log INFO
           ''- PASS: POST command passed to create target config job, status code 200 returned.''
           []]\<rparr>)"
    by (simp add: create_bios_config_job_def bind_http_Cons bind_assoc raise_def)
  then show "create_bios_config_job self uri w =
     (Raise AttributeError, w\<lparr>script := rs, events := events w @
        [Http (POST (jobs_url self) (JObj [(''TargetSettingsURI'', JStr uri)])) r,
         Log INFO
           ''- PASS: POST command passed to create target config job, status code 200 returned.''
           []]\<rparr>)
   \<and> bind (create_bios_config_job self uri) f w =
     (Raise AttributeError, w\<lparr>script := rs, events := events w @
        [Http (POST (jobs_url self) (JObj [(''TargetSettingsURI'', JStr uri)])) r,
         Log INFO
           ''- PASS: POST command passed to create target config job, status code 200 returned.''
           []]\<rparr>)"
    by (simp add: bind_def)
qed

theorem create_bios_config_job_no_id_witness:
  "bind (create_bios_config_job idrac BIOS_URI) (get_job_status idrac)
     \<lparr>script = [created_without_id, finished], events = []\<rparr> =
     (Raise AttributeError, \<lparr>script = [finished], events =
        [Http (POST (jobs_url idrac) (JObj [(''TargetSettingsURI'', JStr BIOS_URI)]))
           created_without_id,
         Log INFO
           ''- PASS: POST command passed to create target config job, status code 200 returned.''
           []]\<rparr>)"
  using create_bios_config_job_no_id[of "\<lparr>script = [created_without_id, finished], events = []\<rparr>"
      created_without_id "[finished]" idrac BIOS_URI "get_job_status idrac"]
  by (simp add: no_id) (simp add: created_without_id_def)

text \<open>
  Claim C7 as it is stated fails: the run ends in the exception, and no line at level
  ERROR has been given to the logger.
\<close>

theorem create_bios_config_job_no_id_counterexample:
  "fst (create_bios_config_job idrac BIOS_URI \<lparr>script = [created_without_id], events = []\<rparr>)
     = Raise AttributeError
   \<and> filter is_error_log (events (snd (create_bios_config_job idrac BIOS_URI
        \<lparr>script = [created_without_id], events = []\<rparr>))) = []"
  by (simp add: create_bios_config_job_def bind_http_Cons bind_assoc raise_def no_id
      is_error_log_def)
     (simp add: created_without_id_def)

section \<open>Properties of the whole run\<close>

subsection \<open>Sequences of events\<close>

lemma safe_append [simp]: "safe self (xs @ ys) = (safe self xs \<and> safe self ys)"
  by (induction self xs rule: safe.induct) auto

lemma ended_append_safe: "safe self xs \<Longrightarrow> ended self (xs @ ys) = ended self ys"
  by (induction self xs rule: safe.induct) auto

lemma http_free_safe: "http_free logs \<Longrightarrow> safe self logs"
  by (induction self logs rule: safe.induct) (auto simp: http_free_def)

lemma verdict_append: "safe self xs \<Longrightarrow> verdict self out ys \<Longrightarrow> verdict self out (xs @ ys)"
  by (cases out) (auto simp: verdict_def ended_append_safe)

lemma heeds_bind:
  assumes "heeds self m" and "\<And>v. heeds self (f v)"
  shows "heeds self (bind m f)"
  unfolding heeds_def
proof
  fix w
  obtain out w1 where mw: "m w = (out, w1)" by (cases "m w")
  from assms(1) mw obtain evs1 where e1: "events w1 = events w @ evs1"
    "verdict self out evs1" unfolding heeds_def by (metis fst_conv snd_conv)
  show "\<exists>evs. events (snd (bind m f w)) = events w @ evs \<and> verdict self (fst (bind m f w)) evs"
  proof (cases out)
    case (Return v)
    from assms(2)[of v] obtain evs2 where
      e2: "events (snd (f v w1)) = events w1 @ evs2"
      "verdict self (fst (f v w1)) evs2" unfolding heeds_def by blast
    have b: "bind m f w = f v w1" using mw Return by (simp add: bind_def)
    from e1 Return have "safe self evs1" by (simp add: verdict_def)
    with e1 e2 b show ?thesis
      by (intro exI[of _ "evs1 @ evs2"]) (simp add: verdict_append)
  next
    case (Exit n)
    then have "bind m f w = (Exit n, w1)" using mw by (simp add: bind_def)
    with e1 Exit show ?thesis by (intro exI[of _ evs1]) (simp add: verdict_def)
  next
    case (Raise e)
    then have "bind m f w = (Raise e, w1)" using mw by (simp add: bind_def)
    with e1 Raise show ?thesis by (intro exI[of _ evs1]) (simp add: verdict_def)
  next
    case Starved
    then have "bind m f w = (Starved, w1)" using mw by (simp add: bind_def)
    with e1 Starved show ?thesis by (intro exI[of _ evs1]) (simp add: verdict_def)
  qed
qed

lemma heeds_ret [simp]: "heeds self (ret v)"
  by (simp add: heeds_def ret_def verdict_def)

lemma heeds_raise [simp]: "heeds self (raise e)"
  by (simp add: heeds_def raise_def verdict_def)

lemma heeds_sys_exit [simp]: "heeds self (sys_exit n)"
  by (simp add: heeds_def sys_exit_def verdict_def)

lemma heeds_lift [simp]: "heeds self (lift x)"
  by (cases x) (simp_all add: lift_def)

lemma heeds_logger [simp]: "heeds self (logger l m a)"
  by (simp add: heeds_def logger_def emit_def verdict_def)

lemma heeds_sleep [simp]: "heeds self (sleep n)"
  by (simp add: heeds_def sleep_def emit_def verdict_def)

lemma heeds_resp_json [simp]: "heeds self (resp_json r)"
  by (simp add: resp_json_def split: option.splits)

lemma heeds_if:
  "(c \<Longrightarrow> heeds self m) \<Longrightarrow> (\<not> c \<Longrightarrow> heeds self n) \<Longrightarrow> heeds self (if c then m else n)"
  by simp

lemma heeds_http:
  assumes "\<And>r. \<not> fatal self rq r \<Longrightarrow> heeds self (f r)"
    and "\<And>r. fatal self rq r \<Longrightarrow> closes self rq r (f r)"
  shows "heeds self (bind (http rq) f)"
  unfolding heeds_def
proof
  fix w
  show "\<exists>evs. events (snd (bind (http rq) f w)) = events w @ evs
      \<and> verdict self (fst (bind (http rq) f w)) evs"
  proof (cases "script w")
    case Nil
    then show ?thesis by (intro exI[of _ "[]"]) (simp add: bind_http_Nil verdict_def)
  next
    case (Cons r rs)
    let ?w = "w\<lparr>script := rs, events := events w @ [Http rq r]\<rparr>"
    have b: "bind (http rq) f w = f r ?w" using Cons by (rule bind_http_Cons)
    show ?thesis
    proof (cases "fatal self rq r")
      case False
      from assms(1)[OF False] obtain evs where
        "events (snd (f r ?w)) = events ?w @ evs" "verdict self (fst (f r ?w)) evs"
        unfolding heeds_def by blast
      with b False show ?thesis
        by (intro exI[of _ "Http rq r # evs"])
           (simp add: verdict_append[of self "[Http rq r]", simplified])
    next
      case True
      from assms(2)[OF True] obtain logs where l:
        "events (snd (f r ?w)) = events ?w @ logs" "http_free logs"
        "fst (f r ?w) = Exit 1 \<or> fst (f r ?w) = Raise ValueError"
        "rejected self rq r \<longrightarrow> reports r logs"
        unfolding closes_def by blast
      then have "ended self (Http rq r # logs)" using True by simp
      with b l show ?thesis
        by (intro exI[of _ "Http rq r # logs"]) (auto simp: verdict_def)
    qed
  qed
qed

lemma heeds_iff: "heeds self m = (\<forall>w. heeds_at self m w)"
  by (simp add: heeds_def heeds_at_def)

lemma heeds_atI: "heeds self m \<Longrightarrow> heeds_at self m w"
  by (simp add: heeds_iff)

lemma heeds_at_bind:
  assumes "heeds_at self m w"
    and "\<And>v w1. m w = (Return v, w1) \<Longrightarrow> heeds_at self (f v) w1"
  shows "heeds_at self (bind m f) w"
proof -
  obtain out w1 where mw: "m w = (out, w1)" by (cases "m w")
  from assms(1) mw obtain evs1 where e1: "events w1 = events w @ evs1"
    "verdict self out evs1" unfolding heeds_at_def by (metis fst_conv snd_conv)
  show ?thesis
  proof (cases out)
    case (Return v)
    from assms(2)[of v w1] mw Return obtain evs2 where
      e2: "events (snd (f v w1)) = events w1 @ evs2"
      "verdict self (fst (f v w1)) evs2" unfolding heeds_at_def by blast
    have b: "bind m f w = f v w1" using mw Return by (simp add: bind_def)
    from e1 Return have "safe self evs1" by (simp add: verdict_def)
    with e1 e2 b show ?thesis
      unfolding heeds_at_def by (intro exI[of _ "evs1 @ evs2"]) (simp add: verdict_append)
  next
    case (Exit n)
    then have "bind m f w = (Exit n, w1)" using mw by (simp add: bind_def)
    with e1 Exit show ?thesis
      unfolding heeds_at_def by (intro exI[of _ evs1]) (simp add: verdict_def)
  next
    case (Raise e)
    then have "bind m f w = (Raise e, w1)" using mw by (simp add: bind_def)
    with e1 Raise show ?thesis
      unfolding heeds_at_def by (intro exI[of _ evs1]) (simp add: verdict_def)
  next
    case Starved
    then have "bind m f w = (Starved, w1)" using mw by (simp add: bind_def)
    with e1 Starved show ?thesis
      unfolding heeds_at_def by (intro exI[of _ evs1]) (simp add: verdict_def)
  qed
qed

subsection \<open>The addresses\<close>

lemma not_prefix_snoc [simp]: "\<not> prefix (xs @ [c]) xs"
  by (auto simp: prefix_def)

lemma is_job_url_job [simp]: "is_job_url self (job_url self job_id)"
  by (simp add: is_job_url_def job_url_def jobs_url_def)

lemma is_job_url_others [simp]:
  "\<not> is_job_url self (jobs_url self)"
  "\<not> is_job_url self (system_url self)"
  "\<not> is_job_url self (bios_url self)"
  "\<not> is_job_url self (boot_sources_url self)"
  by (simp_all add: is_job_url_def jobs_url_def system_url_def bios_url_def boot_sources_url_def)

lemma fatal_GET [simp]:
  "fatal self (GET (job_url self job_id)) r = (status_code r \<noteq> 200 \<or> json r = None)"
  "fatal self (GET (jobs_url self)) r = (json r = None)"
  "fatal self (GET (system_url self)) r = (json r = None)"
  "fatal self (GET (bios_url self)) r = (json r = None)"
  "fatal self
     (GET (boot_sources_url self)) r
     = (json r = None)"
  by (simp_all add: fatal_def rejected_def unparsable_def)

lemma rejected_GET [simp]:
  "rejected self (GET (job_url self job_id)) r = (status_code r \<noteq> 200)"
  "rejected self (GET (jobs_url self)) r = False"
  "rejected self (GET (system_url self)) r = False"
  "rejected self (GET (bios_url self)) r
     = False"
  "rejected self
     (GET (boot_sources_url self)) r
     = False"
  by (simp_all add: rejected_def)

lemma fatal_writes [simp]:
  "fatal self (PATCH (boot_sources_settings_url self) payload) r = False"
  "fatal self (PATCH (pxe_url self) payload) r
     = (status_code r \<noteq> 200)"
  "fatal self (PATCH (bios_settings_url self) payload) r = (status_code r \<noteq> 200)"
  "fatal self (POST (jobs_url self) payload) r = (status_code r \<noteq> 200)"
  "fatal self (POST (reset_url self) payload) r = (status_code r \<noteq> 204)"
  "fatal self (DELETE url) r = False"
  by (auto simp: fatal_def rejected_def unparsable_def pxe_url_def bios_settings_url_def
      BOOT_SOURCES_URI_def BIOS_URI_def jobs_url_def reset_url_def boot_sources_settings_url_def)

lemma rejected_writes [simp]:
  "rejected self (PATCH (pxe_url self) payload) r
     = (status_code r \<noteq> 200)"
  "rejected self (PATCH (bios_settings_url self) payload) r = (status_code r \<noteq> 200)"
  "rejected self (POST (jobs_url self) payload) r = (status_code r \<noteq> 200)"
  "rejected self (POST (reset_url self) payload) r = (status_code r \<noteq> 204)"
  by (auto simp: rejected_def pxe_url_def bios_settings_url_def
      BOOT_SOURCES_URI_def BIOS_URI_def jobs_url_def reset_url_def boot_sources_settings_url_def)

subsection \<open>The operations of the client\<close>

lemma logger_run: "logger l m a w = (Return (), w\<lparr>events := events w @ [Log l m a]\<rparr>)"
  by (simp add: logger_def emit_def)

lemma sleep_run: "sleep n w = (Return (), w\<lparr>events := events w @ [Sleep n]\<rparr>)"
  by (simp add: sleep_def emit_def)

lemmas closes_simps = closes_def http_free_def reports_def bind_assoc resp_json_def sys_exit_def
  raise_def ret_def logger_run sleep_run

lemma heeds_get_bios_boot_mode: "heeds self (get_bios_boot_mode self)"
  unfolding get_bios_boot_mode_def
proof (rule heeds_http)
  fix r assume "\<not> fatal self (GET (bios_url self)) r"
  then show "heeds self (case json r of
        None \<Rightarrow> bind (logger ERROR ''Could not retrieve Bios Boot mode.'' []) (\<lambda>_. sys_exit 1)
      | Some data \<Rightarrow> bind (lift (getitem data ''Attributes'')) (\<lambda>a. lift (getitem a ''BootMode'')))"
    by (auto intro!: heeds_bind split: option.splits)
next
  fix r assume "fatal self (GET (bios_url self)) r"
  then show "closes self (GET (bios_url self)) r (case json r of
        None \<Rightarrow> bind (logger ERROR ''Could not retrieve Bios Boot mode.'' []) (\<lambda>_. sys_exit 1)
      | Some data \<Rightarrow> bind (lift (getitem data ''Attributes'')) (\<lambda>a. lift (getitem a ''BootMode'')))"
    by (simp add: closes_def http_free_def sys_exit_def)
qed

lemma heeds_get_boot_devices: "heeds self (get_boot_devices self boot_seq)"
  unfolding get_boot_devices_def
proof (rule heeds_http)
  fix r assume "\<not> fatal self (GET (boot_sources_url self)) r"
  show "heeds self (bind (resp_json r) (\<lambda>data. bind (lift (getitem data ''Attributes''))
       (\<lambda>a. lift (getitem a boot_seq))))"
    by (intro heeds_bind) simp_all
next
  fix r assume "fatal self (GET (boot_sources_url self)) r"
  then show "closes self (GET (boot_sources_url self)) r
     (bind (resp_json r) (\<lambda>data. bind (lift (getitem data ''Attributes''))
       (\<lambda>a. lift (getitem a boot_seq))))"
    by (simp add: closes_def http_free_def resp_json_def)
qed

lemma heeds_change_boot_order: "heeds self (change_boot_order fs self path host_type)"
  unfolding change_boot_order_def
  by (auto intro!: heeds_bind heeds_http heeds_get_bios_boot_mode heeds_get_boot_devices
      split: yaml_file.splits prod.splits)

lemma heeds_set_next_boot_pxe: "heeds self (set_next_boot_pxe self)"
  unfolding set_next_boot_pxe_def
  by (rule heeds_http) (auto intro!: heeds_bind simp: closes_simps)

lemma heeds_boot_to_device: "heeds self (boot_to_device self boot_to)"
  unfolding boot_to_device_def
  by (rule heeds_http) (auto intro!: heeds_bind simp: closes_simps)

lemma heeds_get_job_queue: "heeds self (get_job_queue self)"
  unfolding get_job_queue_def
  by (rule heeds_http) (auto intro!: heeds_bind simp: closes_simps)

lemma heeds_delete_jobs: "heeds self (delete_jobs self jobs)"
  by (induction jobs) (auto intro!: heeds_http)

lemma heeds_clear_job_queue: "heeds self (clear_job_queue self queue)"
  unfolding clear_job_queue_def
  by (auto intro!: heeds_bind heeds_delete_jobs heeds_get_job_queue)

lemma heeds_create_bios_config_job: "heeds self (create_bios_config_job self uri)"
  unfolding create_bios_config_job_def
  by (rule heeds_http) (auto intro!: heeds_bind simp: closes_simps Let_def split: option.splits)

lemmas bind_rewrites = bind_ret bind_lift_Inr bind_lift_Inl bind_raise bind_sys_exit
  bind_logger bind_sleep

lemma heeds_get_job_status_loop: "heeds self (get_job_status_loop self job_id n)"
proof (induction n)
  case 0
  show ?case by (auto intro!: heeds_bind simp del: bind_rewrites)
next
  case (Suc n)
  show ?case
    unfolding get_job_status_loop.simps
    by (rule heeds_http) (auto intro!: heeds_bind Suc simp: closes_simps split: option.splits)
qed

lemma heeds_get_job_status: "heeds self (get_job_status self job_id)"
  unfolding get_job_status_def by (rule heeds_get_job_status_loop)

lemma heeds_power_state: "heeds self (power_state self)"
  unfolding power_state_def
  by (rule heeds_http) (auto intro!: heeds_bind simp: closes_simps)

lemma heeds_graceful_restart: "heeds self (graceful_restart self)"
  unfolding graceful_restart_def
  by (rule heeds_http) (auto intro!: heeds_bind simp: closes_simps split: option.splits)

lemma heeds_force_off: "heeds self (force_off self)"
  unfolding force_off_def
  by (rule heeds_bind, simp, rule heeds_http)
     (auto intro!: heeds_bind simp: closes_simps split: option.splits)

lemma heeds_power_on: "heeds self (power_on self)"
  unfolding power_on_def
  by (rule heeds_http) (auto intro!: heeds_bind simp: closes_simps split: option.splits)

lemma heeds_wait_for_off_aux:
  "\<forall>(w::world) c. length (script w) = n \<longrightarrow> heeds_at self (wait_for_off self c) w"
proof (induction n rule: less_induct)
  case (less n)
  show ?case
  proof (intro allI impI)
    fix w :: world and c assume len: "length (script w) = n"
    have eq: "wait_for_off self c w =
       bind (power_state self)
       (\<lambda>ps w1.
          if ps = JStr ''Off''
          then logger INFO ''- PASS: GET command passed to verify server is in OFF state'' [] w1
          else if c = 10
          then bind (force_off self) (\<lambda>_ w2. wait_for_off self c w2) w1
          else bind (sleep 1) (\<lambda>_ w2. wait_for_off self (c + 1) w2) w1) w"
      by (rule wait_for_off.simps)
    have "heeds_at self (bind (power_state self)
       (\<lambda>ps w1.
          if ps = JStr ''Off''
          then logger INFO ''- PASS: GET command passed to verify server is in OFF state'' [] w1
          else if c = 10
          then bind (force_off self) (\<lambda>_ w2. wait_for_off self c w2) w1
          else bind (sleep 1) (\<lambda>_ w2. wait_for_off self (c + 1) w2) w1)) w"
    proof (rule heeds_at_bind)
      show "heeds_at self (power_state self) w" by (rule heeds_atI[OF heeds_power_state])
    next
      fix ps w1 assume ps: "power_state self w = (Return ps, w1)"
      then have l1: "length (script w1) < n" using len power_state_consumes by blast
      show "heeds_at self (\<lambda>w1.
          if ps = JStr ''Off''
          then logger INFO ''- PASS: GET command passed to verify server is in OFF state'' [] w1
          else if c = 10
          then bind (force_off self) (\<lambda>_ w2. wait_for_off self c w2) w1
          else bind (sleep 1) (\<lambda>_ w2. wait_for_off self (c + 1) w2) w1) w1"
      proof (cases "ps = JStr ''Off''")
        case True
        have "heeds_at self
           (logger INFO ''- PASS: GET command passed to verify server is in OFF state'' []) w1"
          by (rule heeds_atI) simp
        with True show ?thesis by (simp add: heeds_at_def)
      next
        case False
        show ?thesis
        proof (cases "c = 10")
          case True
          have "heeds_at self (bind (force_off self) (\<lambda>_ w2. wait_for_off self c w2)) w1"
          proof (rule heeds_at_bind)
            show "heeds_at self (force_off self) w1" by (rule heeds_atI[OF heeds_force_off])
          next
            fix v w2 assume "force_off self w1 = (Return v, w2)"
            then have "length (script w2) < length (script w1)" by (rule force_off_consumes)
            with l1 have "length (script w2) < n" by simp
            from less.IH[OF this] show "heeds_at self (\<lambda>w2. wait_for_off self c w2) w2"
              by simp
          qed
          with False True show ?thesis by (simp add: heeds_at_def)
        next
          case c: False
          have "heeds_at self (bind (sleep 1) (\<lambda>_ w2. wait_for_off self (c + 1) w2)) w1"
          proof (rule heeds_at_bind)
            show "heeds_at self (sleep 1) w1" by (rule heeds_atI) simp
          next
            fix v w2 assume "sleep 1 w1 = (Return v, w2)"
            then have "script w2 = script w1" by (rule sleep_keeps_script)
            with l1 have "length (script w2) < n" by simp
            from less.IH[OF this] show "heeds_at self (\<lambda>w2. wait_for_off self (c + 1) w2) w2"
              by simp
          qed
          with False c show ?thesis by (simp add: heeds_at_def)
        qed
      qed
    qed
    then show "heeds_at self (wait_for_off self c) w"
      unfolding heeds_at_def eq .
  qed
qed

lemma heeds_wait_for_off: "heeds self (wait_for_off self c)"
  using heeds_wait_for_off_aux by (simp add: heeds_iff)

lemma heeds_reboot_server: "heeds self (reboot_server self)"
  unfolding reboot_server_def
  by (auto intro!: heeds_bind heeds_power_state heeds_graceful_restart heeds_wait_for_off
      heeds_power_on simp del: bind_rewrites)

lemma heeds_check_profiles: "heeds self (check_profiles defs model boot_devices hs n)"
  by (induction hs arbitrary: n) (auto intro!: heeds_bind simp del: bind_rewrites)

lemma heeds_log_devices: "heeds self (log_devices ds)"
  by (induction ds) (auto intro!: heeds_bind simp del: bind_rewrites)

lemma heeds_list_boot_order: "heeds self (list_boot_order boot_devices)"
  unfolding list_boot_order_def
  by (auto intro!: heeds_bind heeds_log_devices simp del: bind_rewrites)

lemma heeds_check_boot: "heeds self (check_boot fs self path)"
  unfolding check_boot_def
  by (auto intro!: heeds_bind heeds_get_bios_boot_mode heeds_get_boot_devices
      heeds_check_profiles heeds_list_boot_order simp del: bind_rewrites
      split: yaml_file.splits option.splits)

lemma heeds_schedule_and_reboot: "heeds self (schedule_and_reboot self)"
  unfolding schedule_and_reboot_def
  by (auto intro!: heeds_bind heeds_get_job_queue heeds_clear_job_queue
      heeds_create_bios_config_job heeds_get_job_status heeds_reboot_server
      simp del: bind_rewrites)

lemma heeds_main: "heeds (client a) (main fs a)"
  unfolding main_def Let_def client_def[symmetric]
  by (auto intro!: heeds_bind heeds_reboot_server heeds_boot_to_device heeds_schedule_and_reboot
      heeds_check_boot heeds_change_boot_order heeds_set_next_boot_pxe
      simp del: bind_rewrites)

subsection \<open>Two runs\<close>

lemma client_boot_to_args: "client boot_to_args = idrac"
  by (simp add: client_def boot_to_args_def idrac_def)

lemma boot_to_refused:
  "main no_files boot_to_args \<lparr>script = [refused, one_job], events = []\<rparr> =
     (Exit 1, \<lparr>script = [one_job], events =
        [Http (PATCH (bios_settings_url idrac)
           (JObj [(''Attributes'',
              JObj [(''OneTimeBootMode'', JStr ''OneTimeBootSeq''),
                    (''OneTimeBootSeqDev'', JStr nic1)])])) refused,
         Log ERROR ''- FAIL: command failed, error code is: %s'' [I 500],
         Log ERROR [] []]\<rparr>)"
proof -
  have n: "nic1 \<noteq> []" by (simp add: nic1_def)
  have c: "\<lparr>host = host idrac, username = username idrac, password = password idrac\<rparr> = idrac"
    by simp
  show ?thesis
    by (simp add: main_def Let_def boot_to_args_def truthy_def str_opt_def n c
        boot_to_device_def bind_http_Cons bind_assoc refused_def)
qed

lemma queue_one_job: "re_findall quote (json_str one_job) = [''JID_471269252011'' @ [quote]]"
  by (simp add: one_job_def re_findall_def match_jid_def quote_def newline_def)

lemma queue_unavailable: "re_findall quote (json_str unavailable) = []"
  by (simp add: unavailable_def re_findall_def match_jid_def quote_def newline_def)

lemma created_id:
  "re_search CHR '','' (dict_str created) = Some (''JID_471269252012'' @ [quote] @ '','')"
  by (simp add: created_def match_jid_def quote_def newline_def)

lemma codes:
  "status_code accepted = 200" "status_code created = 200" "status_code finished = 200"
  "status_code no_content = 204" "json one_job = Some (JObj [])"
  "json unavailable = Some (JObj [])"
  "json finished = Some (JObj [(''Message'', JStr ''Task successfully scheduled.'')])"
  "json (reading s) = Some (JObj [(''PowerState'', JStr s)])"
  by (simp_all add: accepted_def created_def finished_def no_content_def one_job_def
      unavailable_def reading_def)

subsection \<open>Failures that end the run\<close>

text \<open>
  Claim C2, as amended. In every run of \<open>main\<close>, whatever the arguments, the files and the
  responses: when a tested request is refused (the PATCH of the one-time PXE boot, the PATCH
  of the one-time boot device or the POST creating the configuration job answered with a
  status other than 200, a job-status read answered with a status other than 200, a reset
  action answered with a status other than 204), or when the body of a read is not JSON,
  the run ends at that exchange: no further request is issued, the outcome is the exit
  code 1 or an unhandled ValueError, and after a refusal the status code has been given to
  the logger at level ERROR.
\<close>

theorem checked_failure_ends_run:
  "\<exists>evs. events (snd (main fs a w)) = events w @ evs
      \<and> (\<not> safe (client a) evs \<longrightarrow>
            ended (client a) evs
            \<and> (fst (main fs a w) = Exit 1 \<or> fst (main fs a w) = Raise ValueError))"
proof -
  from heeds_main[of a fs] obtain evs where
    e: "events (snd (main fs a w)) = events w @ evs"
       "verdict (client a) (fst (main fs a w)) evs"
    unfolding heeds_def by blast
  from e(2) have "\<not> safe (client a) evs \<longrightarrow>
            ended (client a) evs
            \<and> (fst (main fs a w) = Exit 1 \<or> fst (main fs a w) = Raise ValueError)"
    by (cases "fst (main fs a w)") (auto simp: verdict_def)
  with e(1) show ?thesis by blast
qed

theorem checked_failure_ends_run_witness:
  "\<not> safe idrac (events (snd (main no_files boot_to_args
        \<lparr>script = [refused, one_job], events = []\<rparr>)))
   \<and> ended idrac (events (snd (main no_files boot_to_args
        \<lparr>script = [refused, one_job], events = []\<rparr>)))
   \<and> fst (main no_files boot_to_args \<lparr>script = [refused, one_job], events = []\<rparr>) = Exit 1"
  using checked_failure_ends_run[of no_files boot_to_args
      "\<lparr>script = [refused, one_job], events = []\<rparr>"]
  unfolding boot_to_refused client_boot_to_args
  by (simp add: fatal_def rejected_def unparsable_def http_free_def reports_def refused_def)

text \<open>
  Claim C2 as it is stated fails: the status of the DELETE requests and of the reads of the
  job queue is never looked at. Here the DELETE is answered 500 and the read of the queue
  that follows 503, and the run goes on to create the job, poll it and power the server on;
  \<open>main\<close> returns 0.
\<close>

theorem checked_failure_ends_run_counterexample:
  "fst (main no_files boot_to_args \<lparr>script = unheeded, events = []\<rparr>) = Return 0
   \<and> filter is_http (events (snd (main no_files boot_to_args
         \<lparr>script = unheeded, events = []\<rparr>))) =
       [Http (PATCH (bios_settings_url idrac)
           (JObj [(''Attributes'',
              JObj [(''OneTimeBootMode'', JStr ''OneTimeBootSeq''),
                    (''OneTimeBootSeqDev'', JStr nic1)])])) accepted,
        Http (GET (jobs_url idrac)) one_job,
        Http (DELETE (jobs_url idrac @ ''/JID_471269252011'')) refused,
        Http (GET (jobs_url idrac)) unavailable,
        Http (POST (jobs_url idrac) (JObj [(''TargetSettingsURI'', JStr BIOS_URI)])) created,
        Http (GET (job_url idrac ''JID_471269252012'')) finished,
        Http (GET (system_url idrac)) (reading ''Off''),
        Http (POST (reset_url idrac) (reset_payload ''On'')) no_content]
   \<and> status_code refused = 500 \<and> status_code unavailable = 503"
proof -
  have n: "nic1 \<noteq> []" by (simp add: nic1_def)
  have c: "\<lparr>host = host idrac, username = username idrac, password = password idrac\<rparr> = idrac"
    by simp
  have m: "main no_files boot_to_args \<lparr>script = unheeded, events = []\<rparr> =
      bind (boot_to_device idrac nic1) (\<lambda>_. schedule_and_reboot idrac)
        \<lparr>script = unheeded, events = []\<rparr>"
    by (simp add: main_def Let_def boot_to_args_def truthy_def str_opt_def n c)
  have g: "get_job_status_loop idrac j 10 w =
      (Return (), w\<lparr>script := rs, events := events w @
             [Http (GET (job_url idrac j)) finished,
              Log INFO ''- PASS: Command passed to check job status, code 200 returned'' [],
              Sleep 10,
              Log INFO ''- PASS: job id %s successfully scheduled'' [S j]]\<rparr>)"
    if "script w = finished # rs" for j w rs
    using get_job_status_loop_200[of w finished rs "JStr ''Task successfully scheduled.''"
        idrac j 9] that
    by (simp add: message_def codes)
  have b: "bind (get_job_status_loop idrac j 10) f w =
      f () (w\<lparr>script := rs, events := events w @
             [Http (GET (job_url idrac j)) finished,
              Log INFO ''- PASS: Command passed to check job status, code 200 returned'' [],
              Sleep 10,
              Log INFO ''- PASS: job id %s successfully scheduled'' [S j]]\<rparr>)"
    if "script w = finished # rs" for j w rs and f :: "unit \<Rightarrow> int prog"
    using g[OF that] by (simp add: bind_def)
  have r: "main no_files boot_to_args \<lparr>script = unheeded, events = []\<rparr> =
     (Return 0, \<lparr>script = [], events =
       [Http (PATCH (bios_settings_url idrac)
           (JObj [(''Attributes'',
              JObj [(''OneTimeBootMode'', JStr ''OneTimeBootSeq''),
                    (''OneTimeBootSeqDev'', JStr nic1)])])) accepted,
        Log INFO ''- PASS: Command passed to set BIOS attribute pending values'' [],
        Http (GET (jobs_url idrac)) one_job,
        Log WARNING (newline # ''- WARNING, clearing job queue for job IDs: %s'' @ [newline])
           [SL [''JID_471269252011'' @ [quote]]],
        Http (DELETE (jobs_url idrac @ ''/JID_471269252011'')) refused,
        Http (GET (jobs_url idrac)) unavailable,
        Log INFO ''- PASS, job queue for iDRAC %s successfully cleared'' [S (host idrac)],
        Http (POST (jobs_url idrac) (JObj [(''TargetSettingsURI'', JStr BIOS_URI)])) created,
        Log INFO
          ''- PASS: POST command passed to create target config job, status code 200 returned.''
          [],
        Log INFO ''- INFO: %s job ID successfully created'' [S ''JID_471269252012''],
        Http (GET (job_url idrac ''JID_471269252012'')) finished,
        Log INFO ''- PASS: Command passed to check job status, code 200 returned'' [],
        Sleep 10,
        Log INFO ''- PASS: job id %s successfully scheduled'' [S ''JID_471269252012''],
        Http (GET (system_url idrac)) (reading ''Off''),
        Log WARNING ''- WARNING: Current server power state is: %s'' [J (JStr ''Off'')],
        Http (POST (reset_url idrac) (reset_payload ''On'')) no_content,
        Log INFO ''- PASS: Command passed to power ON server, code return is %s'' [I 204]]\<rparr>)"
    unfolding m
    by (simp add: boot_to_device_def schedule_and_reboot_def get_job_queue_def
        clear_job_queue_def create_bios_config_job_def get_job_status_def b Let_def
        reboot_server_def power_state_def power_on_def
        bind_http_Cons bind_assoc resp_json_def unheeded_def codes
        queue_one_job[unfolded quote_def] queue_unavailable[unfolded quote_def]
        created_id[unfolded quote_def] py_strip_def quote_def newline_def ret_def)
  show ?thesis
    unfolding r by (simp add: refused_def unavailable_def)
qed

end
